theory Spec2Isabelle
  imports Complex_Main "HOL-Library.Word"
begin

section \<open>Data model\<close>

text \<open>
  Timestamps are the millisecond counts that \<^verbatim>\<open>new Date(x)\<close> yields for a stored
  \<^verbatim>\<open>TIMESTAMP\<close> column; a nullable column is an \<open>option\<close>. A stored timestamp is
  never the empty string, so JavaScript's truthiness test on such a column
  (\<^verbatim>\<open>!this.trialEnd\<close>, \<^verbatim>\<open>!!this.redeemedAt\<close>) is the test for \<open>None\<close>.
  Row ids are the text of the \<^verbatim>\<open>UUID\<close> primary keys.
\<close>

type_synonym timestamp = int

text \<open>
  A row of \<^verbatim>\<open>user_subscriptions\<close> (class \<^verbatim>\<open>UserSubscription\<close>). The columns
  \<^verbatim>\<open>email\<close> and \<^verbatim>\<open>updated_at\<close> are left out: no operation below reads or
  writes them (\<^verbatim>\<open>updated_at\<close> is kept by a table trigger).
\<close>

record user_subscription =
  us_id :: string
  us_uid :: "string option"
  us_device_id :: "string option"
  us_stripe_customer_id :: "string option"
  us_stripe_subscription_id :: "string option"
  us_plan_id :: "string option"
  us_status :: string
  us_trial_start :: "timestamp option"
  us_trial_end :: "timestamp option"
  us_created_at :: timestamp

section \<open>Entitlement resolver (class UserSubscription)\<close>

definition isActive :: "user_subscription \<Rightarrow> bool" where
  "isActive r = (us_status r = ''active'')"

definition isTrial :: "timestamp \<Rightarrow> user_subscription \<Rightarrow> bool" where
  "isTrial now r =
     (if us_status r \<noteq> ''trial'' \<or> us_trial_end r = None then False
      else (case us_trial_end r of None \<Rightarrow> False | Some trialEnd \<Rightarrow> trialEnd > now))"

definition isTrialExpired :: "timestamp \<Rightarrow> user_subscription \<Rightarrow> bool" where
  "isTrialExpired now r =
     (if us_status r \<noteq> ''trial'' \<or> us_trial_end r = None then False
      else (case us_trial_end r of None \<Rightarrow> False | Some trialEnd \<Rightarrow> trialEnd \<le> now))"

definition getSubscriptionStatus :: "timestamp \<Rightarrow> user_subscription \<Rightarrow> string" where
  "getSubscriptionStatus now r =
     (if isActive r then ''active''
      else if isTrial now r then ''trial''
      else if us_status r = ''expired'' \<or> isTrialExpired now r then ''expired''
      else ''none'')"

text \<open>
  \<^verbatim>\<open>Math.ceil(diffTime / (1000 * 60 * 60 * 24))\<close> on a difference of two millisecond
  counts. The quotient of the doubles is the exact ceiling as long as the difference
  stays below \<open>2^26\<close> days, far beyond any stored pair of timestamps, so the integer
  ceiling stands for it.
\<close>

definition msPerDay :: int where
  "msPerDay = 1000 * 60 * 60 * 24"

definition ceilDiv :: "int \<Rightarrow> int \<Rightarrow> int" where
  "ceilDiv a b = - ((- a) div b)"

definition getTrialDaysRemaining :: "timestamp \<Rightarrow> user_subscription \<Rightarrow> int" where
  "getTrialDaysRemaining now r =
     (if \<not> isTrial now r then 0
      else (case us_trial_end r of
              None \<Rightarrow> 0
            | Some trialEnd \<Rightarrow> max 0 (ceilDiv (trialEnd - now) msPerDay)))"

text \<open>
  The spec's formula for the same field, written from the spec's words:
  \<open>max(0, ceil((trial_end - now) / 1 day))\<close>, over the reals. A record without a
  \<open>trial_end\<close> has no value under the formula.
\<close>

definition spec_trial_days_remaining :: "timestamp \<Rightarrow> user_subscription \<Rightarrow> int option" where
  "spec_trial_days_remaining now r =
     (case us_trial_end r of
        None \<Rightarrow> None
      | Some trialEnd \<Rightarrow> Some (max 0 \<lceil>(of_int (trialEnd - now) :: real) / of_int msPerDay\<rceil>))"

text \<open>A sample trial record: \<open>trial_start = T\<close>, \<open>trial_end = T + 3 days\<close>.\<close>

definition sample_trial :: "timestamp \<Rightarrow> user_subscription" where
  "sample_trial T =
     \<lparr> us_id = ''s1'', us_uid = None, us_device_id = Some ''d1'',
       us_stripe_customer_id = None, us_stripe_subscription_id = None,
       us_plan_id = None, us_status = ''trial'',
       us_trial_start = Some T, us_trial_end = Some (T + 3 * msPerDay),
       us_created_at = T \<rparr>"

section \<open>The store and its queries\<close>

text \<open>
  A row of \<^verbatim>\<open>devices\<close> (class \<^verbatim>\<open>Device\<close>); \<open>dev_device_id\<close> holds the keyed
  hash of the fingerprint. \<^verbatim>\<open>created_at\<close> and \<^verbatim>\<open>last_seen\<close> are left out: the
  operations below neither read nor write them.
\<close>

record device =
  dev_id :: string
  dev_device_id :: string
  dev_linked_uid :: "string option"
  dev_trial_start :: "timestamp option"
  dev_trial_end :: "timestamp option"
  dev_subscription_status :: string

text \<open>A row of \<^verbatim>\<open>license_keys\<close> (class \<^verbatim>\<open>LicenseKey\<close>); \<open>lk_key\<close> is the keyed hash.\<close>

record license_key =
  lk_id :: string
  lk_key :: string
  lk_plan_id :: string
  lk_expires_at :: "timestamp option"
  lk_single_use :: bool
  lk_bound_uid :: "string option"
  lk_bound_device_id :: "string option"
  lk_redeemed_at :: "timestamp option"
  lk_created_by :: "string option"

record stripe_plan =
  sp_stripe_price_id :: string
  sp_plan_key :: string

record store =
  user_subscriptions :: "user_subscription list"
  devices :: "device list"
  license_keys :: "license_key list"
  stripe_plans :: "stripe_plan list"

definition empty_store :: store where
  "empty_store = \<lparr> user_subscriptions = [], devices = [], license_keys = [], stripe_plans = [] \<rparr>"

datatype error =
    DbError
  | InvalidKey
  | AlreadyRedeemed
  | KeyExpired
  | InvalidGuestId
  | IdentityRequired
  | ValidationError
  | NotFound
  | TypeError

text \<open>
  An HTTP response: the success body, or the status code with the error it reports.
\<close>

datatype 'a response = Success 'a | Failure nat error

text \<open>
  JavaScript truthiness of a value that is a string, \<^verbatim>\<open>null\<close> or \<^verbatim>\<open>undefined\<close>:
  only a non-empty string is truthy.
\<close>

definition truthy :: "string option \<Rightarrow> bool" where
  "truthy v = (case v of None \<Rightarrow> False | Some x \<Rightarrow> x \<noteq> [])"

text \<open>
  \<^verbatim>\<open>.single()\<close> of the database client yields the row when the query matches exactly
  one, and the error \<^verbatim>\<open>PGRST116\<close> when it matches none or several; every getter maps
  that error to \<^verbatim>\<open>null\<close>.
\<close>

definition single :: "'a list \<Rightarrow> 'a option" where
  "single rows = (case rows of [r] \<Rightarrow> Some r | _ \<Rightarrow> None)"

text \<open>
  \<^verbatim>\<open>.order('created_at', { ascending: false }).limit(1).single()\<close>: the row created
  last. The database leaves the order of rows with equal \<^verbatim>\<open>created_at\<close> open; the
  model takes the first of them in table order.
\<close>

fun latest :: "user_subscription list \<Rightarrow> user_subscription option" where
  "latest [] = None"
| "latest (r # rs) =
     (case latest rs of
        None \<Rightarrow> Some r
      | Some m \<Rightarrow> if us_created_at r < us_created_at m then Some m else Some r)"

definition getByUid :: "string \<Rightarrow> store \<Rightarrow> user_subscription option" where
  "getByUid uid s = latest (filter (\<lambda>r. us_uid r = Some uid) (user_subscriptions s))"

definition getByDeviceId :: "string \<Rightarrow> store \<Rightarrow> user_subscription option" where
  "getByDeviceId deviceId s =
     latest (filter (\<lambda>r. us_device_id r = Some deviceId) (user_subscriptions s))"

definition getByStripeSubscriptionId :: "string \<Rightarrow> store \<Rightarrow> user_subscription option" where
  "getByStripeSubscriptionId stripeSubscriptionId s =
     single (filter (\<lambda>r. us_stripe_subscription_id r = Some stripeSubscriptionId)
       (user_subscriptions s))"

definition getByStripeCustomerId :: "string \<Rightarrow> store \<Rightarrow> user_subscription option" where
  "getByStripeCustomerId stripeCustomerId s =
     latest (filter (\<lambda>r. us_stripe_customer_id r = Some stripeCustomerId)
       (user_subscriptions s))"

text \<open>
  The row an \<^verbatim>\<open>INSERT\<close> stores before the caller's columns are filled in: \<^verbatim>\<open>id\<close>
  and \<^verbatim>\<open>created_at\<close> come from the column defaults (the fresh id and the clock are
  parameters), every other column is \<^verbatim>\<open>NULL\<close>.
\<close>

definition insert_row :: "string \<Rightarrow> timestamp \<Rightarrow> string \<Rightarrow> user_subscription" where
  "insert_row newId now st =
     \<lparr> us_id = newId, us_uid = None, us_device_id = None,
       us_stripe_customer_id = None, us_stripe_subscription_id = None,
       us_plan_id = None, us_status = st,
       us_trial_start = None, us_trial_end = None, us_created_at = now \<rparr>"

text \<open>
  \<^verbatim>\<open>UserSubscription.create\<close>: the insert fails (and the method throws) when the
  primary key is taken. Every status written by the operations below is one the
  table's \<^verbatim>\<open>CHECK\<close> admits, so that constraint never fires and is not modelled.
\<close>

definition UserSubscription_create :: "user_subscription \<Rightarrow> store \<Rightarrow> error + store" where
  "UserSubscription_create row s =
     (if us_id row \<in> set (map us_id (user_subscriptions s)) then Inl DbError
      else Inr (s\<lparr>user_subscriptions := user_subscriptions s @ [row]\<rparr>))"

text \<open>
  \<^verbatim>\<open>subscription.update(updateData)\<close>: the columns named in \<^verbatim>\<open>updateData\<close> are
  written on the row whose id is the instance's; \<^verbatim>\<open>.single()\<close> fails, and the
  method throws, when no such row is left.
\<close>

definition UserSubscription_update ::
  "(user_subscription \<Rightarrow> user_subscription) \<Rightarrow> user_subscription \<Rightarrow> store \<Rightarrow> error + store" where
  "UserSubscription_update updateData this s =
     (if us_id this \<in> set (map us_id (user_subscriptions s))
      then Inr (s\<lparr>user_subscriptions :=
                  map (\<lambda>r. if us_id r = us_id this then updateData r else r)
                    (user_subscriptions s)\<rparr>)
      else Inl DbError)"

definition updateStatus :: "string \<Rightarrow> user_subscription \<Rightarrow> store \<Rightarrow> error + store" where
  "updateStatus st this s = UserSubscription_update (\<lambda>r. r\<lparr>us_status := st\<rparr>) this s"

text \<open>
  \<^verbatim>\<open>Device.getById\<close>. Ids are taken to be well-formed: a guest id that is not
  the text of a UUID makes the database reject the query, the getter throw and the
  caller fail without writing anything.
\<close>

definition Device_getById :: "string \<Rightarrow> store \<Rightarrow> device option" where
  "Device_getById i s = single (filter (\<lambda>d. dev_id d = i) (devices s))"

definition getByStripePriceId :: "string \<Rightarrow> store \<Rightarrow> stripe_plan option" where
  "getByStripePriceId priceId s =
     single (filter (\<lambda>p. sp_stripe_price_id p = priceId) (stripe_plans s))"

definition getByPlanKey :: "string \<Rightarrow> store \<Rightarrow> stripe_plan option" where
  "getByPlanKey planKey s = single (filter (\<lambda>p. sp_plan_key p = planKey) (stripe_plans s))"

section \<open>Billing event processor (routes/stripeWebhooks.js)\<close>

text \<open>
  The fields of the event objects that the handlers read. \<open>ss_price_id\<close> is
  \<^verbatim>\<open>items?.data?.[0]?.price?.id\<close>.
\<close>

record checkout_session =
  cs_id :: string
  cs_customer :: "string option"
  cs_subscription :: "string option"
  cs_metadata_uid :: "string option"
  cs_metadata_guest_id :: "string option"

record invoice =
  inv_id :: string
  inv_subscription :: "string option"

record stripe_subscription =
  ss_id :: string
  ss_customer :: string
  ss_status :: string
  ss_price_id :: "string option"

datatype event =
    CheckoutSessionCompleted checkout_session
  | InvoicePaymentSucceeded invoice
  | InvoicePaymentFailed invoice
  | CustomerSubscriptionCreated stripe_subscription
  | CustomerSubscriptionUpdated stripe_subscription
  | CustomerSubscriptionDeleted stripe_subscription
  | UnhandledEvent string

definition subscriptionData ::
  "checkout_session \<Rightarrow> user_subscription \<Rightarrow> user_subscription" where
  "subscriptionData session r =
     r\<lparr> us_stripe_customer_id := cs_customer session,
        us_stripe_subscription_id := cs_subscription session,
        us_plan_id := None,
        us_status := ''active'' \<rparr>"

definition handleCheckoutSessionCompleted ::
  "timestamp \<Rightarrow> string \<Rightarrow> checkout_session \<Rightarrow> store \<Rightarrow> error + store" where
  "handleCheckoutSessionCompleted now newId session s =
     (let uid = cs_metadata_uid session; guest_id = cs_metadata_guest_id session in
      if \<not> truthy uid \<and> \<not> truthy guest_id then Inr s
      else if truthy uid then
        (case getByUid (the uid) s of
           Some subscription \<Rightarrow> UserSubscription_update (subscriptionData session) subscription s
         | None \<Rightarrow>
             UserSubscription_create
               (subscriptionData session ((insert_row newId now ''active'')\<lparr>us_uid := uid\<rparr>)) s)
      else
        (case Device_getById (the guest_id) s of
           None \<Rightarrow> Inr s
         | Some device \<Rightarrow>
             (case getByDeviceId (dev_id device) s of
                Some subscription \<Rightarrow>
                  UserSubscription_update (subscriptionData session) subscription s
              | None \<Rightarrow>
                  UserSubscription_create
                    (subscriptionData session
                       ((insert_row newId now ''active'')\<lparr>us_device_id := Some (dev_id device)\<rparr>))
                    s)))"

definition handleInvoicePaymentSucceeded :: "invoice \<Rightarrow> store \<Rightarrow> error + store" where
  "handleInvoicePaymentSucceeded invoice s =
     (if \<not> truthy (inv_subscription invoice) then Inr s
      else (case getByStripeSubscriptionId (the (inv_subscription invoice)) s of
              None \<Rightarrow> Inr s
            | Some subscription \<Rightarrow> updateStatus ''active'' subscription s))"

definition handleInvoicePaymentFailed :: "invoice \<Rightarrow> store \<Rightarrow> error + store" where
  "handleInvoicePaymentFailed invoice s =
     (if \<not> truthy (inv_subscription invoice) then Inr s
      else (case getByStripeSubscriptionId (the (inv_subscription invoice)) s of
              None \<Rightarrow> Inr s
            | Some subscription \<Rightarrow> updateStatus ''past_due'' subscription s))"

text \<open>
  \<^verbatim>\<open>handleSubscriptionCreated\<close> obtains the plan class by
  \<^verbatim>\<open>const { StripePlan } = require('../models/StripePlan')\<close>. That module ends with
  \<^verbatim>\<open>module.exports = StripePlan\<close>: what \<^verbatim>\<open>require\<close> returns is the class itself,
  and the class has no property named \<^verbatim>\<open>StripePlan\<close>. The destructured name is
  therefore \<^verbatim>\<open>undefined\<close>, and the call \<^verbatim>\<open>StripePlan.getByStripePriceId(priceId)\<close>
  throws a \<^verbatim>\<open>TypeError\<close>, which the handler logs and throws again. The rest of the
  handler is kept as written, behind the lookup that never returns.
\<close>

definition destructured_StripePlan :: "(string \<Rightarrow> store \<Rightarrow> stripe_plan option) option" where
  "destructured_StripePlan = None"

definition handleSubscriptionCreated :: "stripe_subscription \<Rightarrow> store \<Rightarrow> error + store" where
  "handleSubscriptionCreated stripeSubscription s =
     (if \<not> truthy (ss_price_id stripeSubscription) then Inr s
      else
        (case destructured_StripePlan of
           None \<Rightarrow> Inl TypeError
         | Some StripePlan_getByStripePriceId \<Rightarrow>
             (case StripePlan_getByStripePriceId (the (ss_price_id stripeSubscription)) s of
                None \<Rightarrow> Inr s
              | Some plan \<Rightarrow>
                  (case getByStripeCustomerId (ss_customer stripeSubscription) s of
                     Some subscription \<Rightarrow>
                       UserSubscription_update
                         (\<lambda>r. r\<lparr> us_stripe_subscription_id := Some (ss_id stripeSubscription),
                                  us_plan_id := Some (sp_plan_key plan),
                                  us_status := ''active'' \<rparr>)
                         subscription s
                   | None \<Rightarrow> Inr s))))"

text \<open>The \<^verbatim>\<open>switch (status)\<close> of \<^verbatim>\<open>handleSubscriptionUpdated\<close>.\<close>

definition mappedStatus :: "string \<Rightarrow> string" where
  "mappedStatus status =
     (if status = ''active'' then ''active''
      else if status = ''past_due'' then ''past_due''
      else if status = ''canceled'' \<or> status = ''cancelled'' then ''canceled''
      else if status = ''incomplete'' \<or> status = ''incomplete_expired'' then ''expired''
      else if status = ''trialing'' then ''trial''
      else if status = ''unpaid'' then ''expired''
      else ''expired'')"

definition handleSubscriptionUpdated :: "stripe_subscription \<Rightarrow> store \<Rightarrow> error + store" where
  "handleSubscriptionUpdated stripeSubscription s =
     (case getByStripeSubscriptionId (ss_id stripeSubscription) s of
        None \<Rightarrow> Inr s
      | Some subscription \<Rightarrow>
          updateStatus (mappedStatus (ss_status stripeSubscription)) subscription s)"

definition handleSubscriptionDeleted :: "stripe_subscription \<Rightarrow> store \<Rightarrow> error + store" where
  "handleSubscriptionDeleted stripeSubscription s =
     (case getByStripeSubscriptionId (ss_id stripeSubscription) s of
        None \<Rightarrow> Inr s
      | Some subscription \<Rightarrow> updateStatus ''canceled'' subscription s)"

text \<open>
  The \<^verbatim>\<open>switch (event.type)\<close> of the webhook route, entered once the signature has
  been verified. \<open>Inl\<close> is the handler's exception (answered with status 500).
\<close>

fun processEvent :: "timestamp \<Rightarrow> string \<Rightarrow> event \<Rightarrow> store \<Rightarrow> error + store" where
  "processEvent now newId (CheckoutSessionCompleted session) s =
     handleCheckoutSessionCompleted now newId session s"
| "processEvent now newId (InvoicePaymentSucceeded invoice) s = handleInvoicePaymentSucceeded invoice s"
| "processEvent now newId (InvoicePaymentFailed invoice) s = handleInvoicePaymentFailed invoice s"
| "processEvent now newId (CustomerSubscriptionCreated sub) s = handleSubscriptionCreated sub s"
| "processEvent now newId (CustomerSubscriptionUpdated sub) s = handleSubscriptionUpdated sub s"
| "processEvent now newId (CustomerSubscriptionDeleted sub) s = handleSubscriptionDeleted sub s"
| "processEvent now newId (UnhandledEvent ty) s = Inr s"

section \<open>Status check (GET /check-subscription)\<close>

record subscription_view =
  sv_status :: string
  sv_plan :: "stripe_plan option"
  sv_trialStart :: "timestamp option"
  sv_trialEnd :: "timestamp option"
  sv_licenseKey :: "string option"

definition startsWith :: "string \<Rightarrow> string \<Rightarrow> bool" where
  "startsWith str pre = (take (length pre) str = pre)"

definition check_subscription ::
  "timestamp \<Rightarrow> string option \<Rightarrow> string option \<Rightarrow> store \<Rightarrow> subscription_view response" where
  "check_subscription now uid guest_id s =
     (if \<not> truthy uid \<and> \<not> truthy guest_id then Failure 400 IdentityRequired
      else
        (let subscription =
           (if truthy uid then getByUid (the uid) s
            else (case Device_getById (the guest_id) s of
                    None \<Rightarrow> None
                  | Some device \<Rightarrow> getByDeviceId (dev_id device) s))
         in case subscription of
              None \<Rightarrow>
                Success \<lparr> sv_status = ''none'', sv_plan = None, sv_trialStart = None,
                          sv_trialEnd = None, sv_licenseKey = None \<rparr>
            | Some sub \<Rightarrow>
                Success \<lparr> sv_status = getSubscriptionStatus now sub,
                          sv_plan = (if truthy (us_plan_id sub)
                                     then getByPlanKey (the (us_plan_id sub)) s else None),
                          sv_trialStart = us_trial_start sub,
                          sv_trialEnd = us_trial_end sub,
                          sv_licenseKey =
                            (if truthy (us_plan_id sub)
                                \<and> startsWith (the (us_plan_id sub)) ''license_''
                             then us_plan_id sub else None) \<rparr>))"

section \<open>Trial manager (POST /start-guest-trial, class Device)\<close>

text \<open>
  The keyed hash of a fingerprint (\<^verbatim>\<open>Device.hashDeviceId\<close>, an HMAC under a secret
  of the environment) is a parameter \<open>hashDeviceId\<close> of the operations that use it.
  \<^verbatim>\<open>Device.create\<close> fails when the fresh id or the hash is already in the table
  (primary key, \<^verbatim>\<open>UNIQUE\<close> on \<^verbatim>\<open>device_id\<close>).
\<close>

definition Device_create ::
  "(string \<Rightarrow> string) \<Rightarrow> timestamp \<Rightarrow> string \<Rightarrow> string \<Rightarrow> store \<Rightarrow> error + device \<times> store" where
  "Device_create hashDeviceId now newId deviceId s =
     (let hashedDeviceId = hashDeviceId deviceId;
          trialEnd = now + 3 * 24 * 60 * 60 * 1000;
          row = \<lparr> dev_id = newId, dev_device_id = hashedDeviceId, dev_linked_uid = None,
                  dev_trial_start = Some now, dev_trial_end = Some trialEnd,
                  dev_subscription_status = ''trial'' \<rparr>
      in if newId \<in> set (map dev_id (devices s))
            \<or> hashedDeviceId \<in> set (map dev_device_id (devices s))
         then Inl DbError
         else Inr (row, s\<lparr>devices := devices s @ [row]\<rparr>))"

definition Device_getByDeviceId :: "(string \<Rightarrow> string) \<Rightarrow> string \<Rightarrow> store \<Rightarrow> device option" where
  "Device_getByDeviceId hashDeviceId deviceId s =
     single (filter (\<lambda>d. dev_device_id d = hashDeviceId deviceId) (devices s))"

definition Device_isTrialActive :: "timestamp \<Rightarrow> device \<Rightarrow> bool" where
  "Device_isTrialActive now d =
     (if dev_subscription_status d \<noteq> ''trial'' \<or> dev_trial_end d = None then False
      else (case dev_trial_end d of None \<Rightarrow> False | Some trialEnd \<Rightarrow> trialEnd > now))"

definition Device_getTrialDaysRemaining :: "timestamp \<Rightarrow> device \<Rightarrow> int" where
  "Device_getTrialDaysRemaining now d =
     (if \<not> Device_isTrialActive now d then 0
      else (case dev_trial_end d of
              None \<Rightarrow> 0
            | Some trialEnd \<Rightarrow> max 0 (ceilDiv (trialEnd - now) msPerDay)))"

record trial_view =
  tv_guest_id :: string
  tv_trial_start :: "timestamp option"
  tv_trial_end :: "timestamp option"
  tv_status :: string
  tv_is_trial_active :: bool
  tv_trial_days_remaining :: int

definition Device_toPublicJSON :: "timestamp \<Rightarrow> device \<Rightarrow> trial_view" where
  "Device_toPublicJSON now d =
     \<lparr> tv_guest_id = dev_id d,
       tv_trial_start = dev_trial_start d,
       tv_trial_end = dev_trial_end d,
       tv_status = dev_subscription_status d,
       tv_is_trial_active = Device_isTrialActive now d,
       tv_trial_days_remaining = Device_getTrialDaysRemaining now d \<rparr>"

text \<open>
  The route, past its rate limiter. One clock reading \<open>now\<close> stands for the
  request's readings of the clock; \<open>newDeviceId\<close> and \<open>newSubId\<close> are the ids the
  database draws for the two inserts. A failed insert leaves what was stored before
  it: the device row stays when the subscription insert fails.
\<close>

definition start_guest_trial ::
  "(string \<Rightarrow> string) \<Rightarrow> timestamp \<Rightarrow> string \<Rightarrow> string \<Rightarrow> string \<Rightarrow> store
     \<Rightarrow> trial_view response \<times> store" where
  "start_guest_trial hashDeviceId now newDeviceId newSubId device_id s =
     (if length device_id < 1 \<or> length device_id > 255 then (Failure 400 ValidationError, s)
      else
        (case Device_getByDeviceId hashDeviceId device_id s of
           Some device \<Rightarrow> (Success (Device_toPublicJSON now device), s)
         | None \<Rightarrow>
             (case Device_create hashDeviceId now newDeviceId device_id s of
                Inl e \<Rightarrow> (Failure 500 e, s)
              | Inr (device, s1) \<Rightarrow>
                  (case UserSubscription_create
                          ((insert_row newSubId now ''trial'')
                             \<lparr> us_device_id := Some (dev_id device),
                               us_trial_start := dev_trial_start device,
                               us_trial_end := dev_trial_end device \<rparr>) s1 of
                     Inl e \<Rightarrow> (Failure 500 e, s1)
                   | Inr s2 \<Rightarrow> (Success (Device_toPublicJSON now device), s2)))))"

section \<open>License key engine (class LicenseKey)\<close>

text \<open>
  \<^verbatim>\<open>crypto.randomBytes(2).toString('hex').toUpperCase()\<close>: two random bytes, each
  written as two hexadecimal digits, in upper case. On the digits and letters that
  the hexadecimal form produces, \<^verbatim>\<open>toUpperCase\<close> is the ASCII one.
\<close>

definition hexDigits :: string where
  "hexDigits = ''0123456789abcdef''"

definition toStringHex :: "8 word list \<Rightarrow> string" where
  "toStringHex bytes =
     concat (map (\<lambda>b. [hexDigits ! (unat b div 16), hexDigits ! (unat b mod 16)]) bytes)"

definition toUpperCase :: "string \<Rightarrow> string" where
  "toUpperCase str =
     map (\<lambda>c. if 97 \<le> (of_char c :: nat) \<and> (of_char c :: nat) \<le> 122
               then char_of ((of_char c :: nat) - 32) else c) str"

fun join :: "string \<Rightarrow> string list \<Rightarrow> string" where
  "join sep [] = []"
| "join sep [x] = x"
| "join sep (x # y # ys) = x @ sep @ join sep (y # ys)"

text \<open>
  \<^verbatim>\<open>LicenseKey.generateKey\<close>. The three calls of \<^verbatim>\<open>crypto.randomBytes(2)\<close> are
  the function's input: one pair of bytes for each pass of the loop.
\<close>

type_synonym random_bytes = "(8 word \<times> 8 word) \<times> (8 word \<times> 8 word) \<times> (8 word \<times> 8 word)"

definition segment :: "8 word \<times> 8 word \<Rightarrow> string" where
  "segment r = toUpperCase (toStringHex [fst r, snd r])"

definition generateKey :: "random_bytes \<Rightarrow> string" where
  "generateKey rnd =
     (case rnd of (r0, r1, r2) \<Rightarrow> ''UTM-'' @ join ''-'' [segment r0, segment r1, segment r2])"

text \<open>
  The digits a segment is made of, and the characters the spec calls upper-case
  alphanumeric (\<open>0\<close> to \<open>9\<close>, \<open>A\<close> to \<open>Z\<close>).
\<close>

definition upperHexDigits :: string where
  "upperHexDigits = ''0123456789ABCDEF''"

definition upperAlnum :: "char \<Rightarrow> bool" where
  "upperAlnum c = ((48 \<le> (of_char c :: nat) \<and> (of_char c :: nat) \<le> 57)
                   \<or> (65 \<le> (of_char c :: nat) \<and> (of_char c :: nat) \<le> 90))"

definition isRedeemed :: "license_key \<Rightarrow> bool" where
  "isRedeemed k = (lk_redeemed_at k \<noteq> None)"

definition isExpired :: "timestamp \<Rightarrow> license_key \<Rightarrow> bool" where
  "isExpired now k =
     (case lk_expires_at k of None \<Rightarrow> False | Some expiresAt \<Rightarrow> expiresAt \<le> now)"

definition isValidForRedemption :: "timestamp \<Rightarrow> license_key \<Rightarrow> bool" where
  "isValidForRedemption now k = (\<not> isRedeemed k \<and> \<not> isExpired now k)"

datatype bound_info = BoundUid string | BoundDeviceId string

definition getBoundInfo :: "license_key \<Rightarrow> bound_info option" where
  "getBoundInfo k =
     (if truthy (lk_bound_uid k) then Some (BoundUid (the (lk_bound_uid k)))
      else if truthy (lk_bound_device_id k) then Some (BoundDeviceId (the (lk_bound_device_id k)))
      else None)"

record license_view =
  lv_plan_id :: string
  lv_expires_at :: "timestamp option"
  lv_bound_to :: "bound_info option"

definition LicenseKey_toPublicJSON :: "license_key \<Rightarrow> license_view" where
  "LicenseKey_toPublicJSON k =
     \<lparr> lv_plan_id = lk_plan_id k, lv_expires_at = lk_expires_at k, lv_bound_to = getBoundInfo k \<rparr>"

text \<open>\<^verbatim>\<open>LicenseKey.hashKey\<close> is a parameter \<open>hashKey\<close>, as the device hash is.\<close>

definition LicenseKey_getByKey :: "(string \<Rightarrow> string) \<Rightarrow> string \<Rightarrow> store \<Rightarrow> license_key option" where
  "LicenseKey_getByKey hashKey key s =
     single (filter (\<lambda>k. lk_key k = hashKey key) (license_keys s))"

definition LicenseKey_update ::
  "(license_key \<Rightarrow> license_key) \<Rightarrow> license_key \<Rightarrow> store \<Rightarrow> error + store" where
  "LicenseKey_update updateData this s =
     (if lk_id this \<in> set (map lk_id (license_keys s))
      then Inr (s\<lparr>license_keys :=
                  map (\<lambda>k. if lk_id k = lk_id this then updateData k else k) (license_keys s)\<rparr>)
      else Inl DbError)"

text \<open>
  \<^verbatim>\<open>redeem\<close> and \<^verbatim>\<open>revoke\<close> run on an instance \<open>this\<close> that was read earlier:
  the checks look at the instance, the update goes to the table row with its id.
\<close>

definition LicenseKey_redeem ::
  "timestamp \<Rightarrow> string option \<Rightarrow> string option \<Rightarrow> license_key \<Rightarrow> store \<Rightarrow> error + store" where
  "LicenseKey_redeem now boundUid boundDeviceId this s =
     (if isRedeemed this then Inl AlreadyRedeemed
      else if isExpired now this then Inl KeyExpired
      else LicenseKey_update
             (\<lambda>k. k\<lparr> lk_bound_uid := boundUid,
                      lk_bound_device_id := boundDeviceId,
                      lk_redeemed_at := Some now \<rparr>) this s)"

definition LicenseKey_revoke :: "timestamp \<Rightarrow> license_key \<Rightarrow> store \<Rightarrow> error + store" where
  "LicenseKey_revoke now this s =
     LicenseKey_update
       (\<lambda>k. k\<lparr> lk_redeemed_at := Some now,
                lk_bound_uid := None,
                lk_bound_device_id := None \<rparr>) this s"

record key_options =
  opt_expiresAt :: "timestamp option"
  opt_singleUse :: "bool option"
  opt_createdBy :: "string option"

text \<open>
  \<^verbatim>\<open>LicenseKey.createMultiple\<close>: each pass of the loop draws a key, hashes it and
  inserts a row; the list holds, for each pass, the random bytes and the row id
  drawn. The insert fails on a taken id or a taken hash; the rows inserted by
  earlier passes stay.
\<close>

fun createMultiple_loop ::
  "(string \<Rightarrow> string) \<Rightarrow> string \<Rightarrow> key_options \<Rightarrow> (random_bytes \<times> string) list
     \<Rightarrow> license_key list \<Rightarrow> string list \<Rightarrow> store
     \<Rightarrow> (error + license_key list \<times> string list) \<times> store" where
  "createMultiple_loop hashKey planId options [] keys plaintextKeys s =
     (Inr (keys, plaintextKeys), s)"
| "createMultiple_loop hashKey planId options ((rnd, newId) # rest) keys plaintextKeys s =
     (let key = generateKey rnd;
          hashedKey = hashKey key;
          row = \<lparr> lk_id = newId, lk_key = hashedKey, lk_plan_id = planId,
                  lk_expires_at = opt_expiresAt options,
                  lk_single_use = (opt_singleUse options \<noteq> Some False),
                  lk_bound_uid = None, lk_bound_device_id = None, lk_redeemed_at = None,
                  lk_created_by = opt_createdBy options \<rparr>
      in if newId \<in> set (map lk_id (license_keys s))
            \<or> hashedKey \<in> set (map lk_key (license_keys s))
         then (Inl DbError, s)
         else createMultiple_loop hashKey planId options rest (keys @ [row])
                (plaintextKeys @ [key]) (s\<lparr>license_keys := license_keys s @ [row]\<rparr>))"

definition createMultiple ::
  "(string \<Rightarrow> string) \<Rightarrow> string \<Rightarrow> nat \<Rightarrow> key_options \<Rightarrow> (nat \<Rightarrow> random_bytes \<times> string) \<Rightarrow> store
     \<Rightarrow> (error + license_key list \<times> string list) \<times> store" where
  "createMultiple hashKey planId count options draw s =
     createMultiple_loop hashKey planId options (map draw [0..<count]) [] [] s"

section \<open>License routes (POST /redeem-license, POST /admin/revoke-license)\<close>

text \<open>
  The tail of the redeem route, from the call of \<^verbatim>\<open>licenseKey.redeem\<close> on: the
  response is built from the instance, whose \<^verbatim>\<open>boundUid\<close> and
  \<^verbatim>\<open>boundDeviceId\<close> the update does not refresh.
\<close>

definition redeem_and_grant ::
  "timestamp \<Rightarrow> string \<Rightarrow> string option \<Rightarrow> string option \<Rightarrow> license_key \<Rightarrow> store
     \<Rightarrow> license_view response \<times> store" where
  "redeem_and_grant now newSubId boundUid boundDeviceId licenseKey s =
     (case LicenseKey_redeem now boundUid boundDeviceId licenseKey s of
        Inl e \<Rightarrow> (Failure 500 e, s)
      | Inr s1 \<Rightarrow>
          (let base = (insert_row newSubId now ''active'')
                        \<lparr> us_plan_id := Some (''license_'' @ lk_plan_id licenseKey) \<rparr>;
               row = (if truthy boundUid then base\<lparr>us_uid := boundUid\<rparr>
                      else base\<lparr>us_device_id := boundDeviceId\<rparr>)
           in case UserSubscription_create row s1 of
                Inl e \<Rightarrow> (Failure 500 e, s1)
              | Inr s2 \<Rightarrow> (Success (LicenseKey_toPublicJSON licenseKey), s2)))"

text \<open>
  The request body carries \<^verbatim>\<open>key\<close>, \<^verbatim>\<open>guest_id\<close> and \<^verbatim>\<open>id_token\<close>; the two
  optional fields are taken to have passed the schema when present. The route is
  registered with its rate limiter alone, and neither it nor the server installs a
  middleware that sets \<^verbatim>\<open>req.user\<close>. So \<^verbatim>\<open>const { uid } = req.user || {}\<close>
  finds the empty object and \<^verbatim>\<open>uid\<close> is \<^verbatim>\<open>undefined\<close>, whatever token the
  request brings in its body or its headers.
\<close>

definition request_uid :: "string option \<Rightarrow> string option" where
  "request_uid id_token = None"

text \<open>
  The route after its lookup of the key: \<open>licenseKey\<close> is the instance that
  \<^verbatim>\<open>LicenseKey.getByKey\<close> returned.
\<close>

definition redeem_license_finish ::
  "timestamp \<Rightarrow> string \<Rightarrow> string option \<Rightarrow> string option \<Rightarrow> license_key \<Rightarrow> store
     \<Rightarrow> license_view response \<times> store" where
  "redeem_license_finish now newSubId guest_id id_token licenseKey s =
     (let uid = request_uid id_token in
      if \<not> isValidForRedemption now licenseKey
      then (Failure 400 (if isRedeemed licenseKey then AlreadyRedeemed else KeyExpired), s)
      else if truthy uid then redeem_and_grant now newSubId uid None licenseKey s
      else if truthy guest_id then
        (case Device_getById (the guest_id) s of
           None \<Rightarrow> (Failure 400 InvalidGuestId, s)
         | Some device \<Rightarrow> redeem_and_grant now newSubId None (Some (dev_id device)) licenseKey s)
      else (Failure 400 IdentityRequired, s))"

definition redeem_license ::
  "(string \<Rightarrow> string) \<Rightarrow> timestamp \<Rightarrow> string \<Rightarrow> string option \<Rightarrow> string option \<Rightarrow> string \<Rightarrow> store
     \<Rightarrow> license_view response \<times> store" where
  "redeem_license hashKey now newSubId guest_id id_token key s =
     (if length key < 1 \<or> length key > 255 then (Failure 400 ValidationError, s)
      else
        (case LicenseKey_getByKey hashKey key s of
           None \<Rightarrow> (Failure 400 InvalidKey, s)
         | Some licenseKey \<Rightarrow>
             redeem_license_finish now newSubId guest_id id_token licenseKey s))"

definition revoke_license ::
  "(string \<Rightarrow> string) \<Rightarrow> timestamp \<Rightarrow> string \<Rightarrow> store \<Rightarrow> unit response \<times> store" where
  "revoke_license hashKey now key s =
     (case LicenseKey_getByKey hashKey key s of
        None \<Rightarrow> (Failure 404 NotFound, s)
      | Some licenseKey \<Rightarrow>
          (case LicenseKey_revoke now licenseKey s of
             Inl e \<Rightarrow> (Failure 500 e, s)
           | Inr s1 \<Rightarrow> (Success (), s1)))"

section \<open>Two redemption attempts on one key\<close>

text \<open>
  The redeem route awaits its lookup of the key and, later, the update that
  \<^verbatim>\<open>licenseKey.redeem\<close> issues; another request can run between the two. An
  attempt is the rest of a request beside the key; \<open>redeem_after_lookup\<close> is the
  route from the point where its lookup has returned \<open>found\<close>, and
  \<open>redeem_lookups_first\<close> is the order of events in which both attempts have their
  lookup answered before either goes on.
\<close>

record redeem_attempt =
  ra_now :: timestamp
  ra_newSubId :: string
  ra_guest_id :: "string option"
  ra_id_token :: "string option"

definition redeem_after_lookup ::
  "redeem_attempt \<Rightarrow> license_key option \<Rightarrow> store \<Rightarrow> license_view response \<times> store" where
  "redeem_after_lookup a found s =
     (case found of
        None \<Rightarrow> (Failure 400 InvalidKey, s)
      | Some licenseKey \<Rightarrow>
          redeem_license_finish (ra_now a) (ra_newSubId a) (ra_guest_id a) (ra_id_token a)
            licenseKey s)"

definition redeem_lookups_first ::
  "(string \<Rightarrow> string) \<Rightarrow> string \<Rightarrow> redeem_attempt \<Rightarrow> redeem_attempt \<Rightarrow> store
     \<Rightarrow> license_view response \<times> license_view response \<times> store" where
  "redeem_lookups_first hashKey key a b s =
     (let foundA = LicenseKey_getByKey hashKey key s;
          foundB = LicenseKey_getByKey hashKey key s;
          resA = redeem_after_lookup a foundA s;
          resB = redeem_after_lookup b foundB (snd resA)
      in (fst resA, fst resB, snd resB))"

section \<open>Requests\<close>

text \<open>
  The requests that write to the store, each with the clock reading and the fresh
  ids it is served with, and the store after a request. The webhook request carries
  the event that signature verification returned.
\<close>

datatype request =
    StartGuestTrial timestamp string string string
  | RedeemLicense timestamp string "string option" "string option" string
  | RevokeLicense timestamp string
  | GenerateLicenseKeys string nat key_options "nat \<Rightarrow> random_bytes \<times> string"
  | StripeWebhook timestamp string event

fun handle_request :: "(string \<Rightarrow> string) \<Rightarrow> (string \<Rightarrow> string) \<Rightarrow> request \<Rightarrow> store \<Rightarrow> store" where
  "handle_request hashDeviceId hashKey (StartGuestTrial now newDeviceId newSubId device_id) s =
     snd (start_guest_trial hashDeviceId now newDeviceId newSubId device_id s)"
| "handle_request hashDeviceId hashKey (RedeemLicense now newSubId guest_id id_token key) s =
     snd (redeem_license hashKey now newSubId guest_id id_token key s)"
| "handle_request hashDeviceId hashKey (RevokeLicense now key) s =
     snd (revoke_license hashKey now key s)"
| "handle_request hashDeviceId hashKey (GenerateLicenseKeys planId count options draw) s =
     snd (createMultiple hashKey planId count options draw s)"
| "handle_request hashDeviceId hashKey (StripeWebhook now newId ev) s =
     (case processEvent now newId ev s of Inl e \<Rightarrow> s | Inr s1 \<Rightarrow> s1)"

fun run_requests :: "(string \<Rightarrow> string) \<Rightarrow> (string \<Rightarrow> string) \<Rightarrow> request list \<Rightarrow> store \<Rightarrow> store" where
  "run_requests hashDeviceId hashKey [] s = s"
| "run_requests hashDeviceId hashKey (req # reqs) s =
     run_requests hashDeviceId hashKey reqs (handle_request hashDeviceId hashKey req s)"

definition binding_ok :: "license_key \<Rightarrow> bool" where
  "binding_ok k = (lk_bound_uid k = None \<or> lk_bound_device_id k = None)"

definition unbound :: "license_key \<Rightarrow> bool" where
  "unbound k = (lk_bound_uid k = None \<and> lk_bound_device_id k = None)"

section \<open>Sample data\<close>

definition sample_plan :: stripe_plan where
  "sample_plan = \<lparr> sp_stripe_price_id = ''price_monthly_pro'', sp_plan_key = ''pro_monthly'' \<rparr>"

definition sample_device :: device where
  "sample_device =
     \<lparr> dev_id = ''d1'', dev_device_id = ''h1'', dev_linked_uid = None,
       dev_trial_start = Some 0, dev_trial_end = Some (3 * msPerDay),
       dev_subscription_status = ''trial'' \<rparr>"

definition sample_sub :: user_subscription where
  "sample_sub =
     (sample_trial 0)\<lparr> us_stripe_customer_id := Some ''cus_1'',
                        us_stripe_subscription_id := Some ''sub_1'' \<rparr>"

definition sample_store :: store where
  "sample_store =
     \<lparr> user_subscriptions = [sample_sub], devices = [sample_device],
       license_keys = [], stripe_plans = [sample_plan] \<rparr>"

definition sample_stripe_subscription :: "string \<Rightarrow> stripe_subscription" where
  "sample_stripe_subscription st =
     \<lparr> ss_id = ''sub_1'', ss_customer = ''cus_1'', ss_status = st,
       ss_price_id = Some ''price_monthly_pro'' \<rparr>"

definition sample_checkout_user :: checkout_session where
  "sample_checkout_user =
     \<lparr> cs_id = ''cs_1'', cs_customer = Some ''cus_9'', cs_subscription = Some ''sub_9'',
       cs_metadata_uid = Some ''u1'', cs_metadata_guest_id = None \<rparr>"

definition sample_checkout_guest :: checkout_session where
  "sample_checkout_guest =
     \<lparr> cs_id = ''cs_2'', cs_customer = Some ''cus_8'', cs_subscription = Some ''sub_8'',
       cs_metadata_uid = None, cs_metadata_guest_id = Some ''d1'' \<rparr>"

text \<open>
  A license key and a store that holds it. The examples take the identity for the
  keyed hash, so the stored \<open>lk_key\<close> is the plaintext key.
\<close>

definition sample_key :: license_key where
  "sample_key =
     \<lparr> lk_id = ''k1'', lk_key = ''UTM-12AB-000A-FFFF'', lk_plan_id = ''pro_monthly'',
       lk_expires_at = None, lk_single_use = True, lk_bound_uid = None,
       lk_bound_device_id = None, lk_redeemed_at = None, lk_created_by = Some ''admin'' \<rparr>"

definition sample_key_store :: "license_key \<Rightarrow> store" where
  "sample_key_store k = sample_store\<lparr>license_keys := [k]\<rparr>"

definition plain_hash :: "string \<Rightarrow> string" where
  "plain_hash key = key"

text \<open>
  A second device, a store with both devices and the key, and a guest's attempt to
  redeem (no token in the request).
\<close>

definition sample_device2 :: device where
  "sample_device2 =
     \<lparr> dev_id = ''d2'', dev_device_id = ''h2'', dev_linked_uid = None,
       dev_trial_start = Some 0, dev_trial_end = Some (3 * msPerDay),
       dev_subscription_status = ''trial'' \<rparr>"

definition sample_race_store :: store where
  "sample_race_store =
     sample_store\<lparr>devices := [sample_device, sample_device2], license_keys := [sample_key]\<rparr>"

definition sample_two_device_store :: "license_key \<Rightarrow> store" where
  "sample_two_device_store k =
     sample_store\<lparr>devices := [sample_device, sample_device2], license_keys := [k]\<rparr>"

definition sample_attempt :: "timestamp \<Rightarrow> string \<Rightarrow> string \<Rightarrow> redeem_attempt" where
  "sample_attempt now newSubId guest =
     \<lparr> ra_now = now, ra_newSubId = newSubId, ra_guest_id = Some guest, ra_id_token = None \<rparr>"

section \<open>Resolver properties\<close>

lemma ceilDiv_real:
  "\<lceil>(of_int a :: real) / of_int b\<rceil> = ceilDiv a b"
  unfolding ceilDiv_def by (rule ceiling_divide_eq_div)

lemma spec_trial_days_remaining_int:
  "spec_trial_days_remaining now r =
     map_option (\<lambda>te. max 0 (ceilDiv (te - now) msPerDay)) (us_trial_end r)"
  unfolding spec_trial_days_remaining_def
  by (cases "us_trial_end r") (simp_all only: ceilDiv_real option.simps option.map)

lemma isTrial_status: "isTrial now r \<Longrightarrow> us_status r = ''trial''"
  by (auto simp: isTrial_def split: if_splits)

text \<open>
  C1 (as stated, refuted): a stored status \<open>past_due\<close> does not pass through the
  resolver; it comes out as \<open>none\<close>.
\<close>

theorem C1_past_due_counterexample:
  "getSubscriptionStatus 0 ((sample_trial 0)\<lparr>us_status := ''past_due''\<rparr>) \<noteq> ''past_due''"
  by (simp add: getSubscriptionStatus_def isActive_def isTrial_def isTrialExpired_def
      sample_trial_def)

text \<open>
  C1 (amended): a record stored as \<open>past_due\<close> or \<open>canceled\<close> resolves to \<open>none\<close>;
  the resolver answers \<open>expired\<close> exactly for a stored \<open>expired\<close> and for a stored
  \<open>trial\<close> whose \<open>trial_end\<close> is set and not after the current time; a record that
  matches no rule resolves to \<open>none\<close>, so the result is always one of \<open>active\<close>,
  \<open>trial\<close>, \<open>expired\<close>, \<open>none\<close>.
\<close>

theorem C1_resolver_status:
  "(us_status r = ''past_due'' \<or> us_status r = ''canceled''
      \<longrightarrow> getSubscriptionStatus now r = ''none'')
   \<and> (getSubscriptionStatus now r = ''expired'' \<longleftrightarrow>
        us_status r = ''expired''
        \<or> (us_status r = ''trial'' \<and> (\<exists>te. us_trial_end r = Some te \<and> te \<le> now)))
   \<and> getSubscriptionStatus now r \<in> {''active'', ''trial'', ''expired'', ''none''}"
  by (auto simp: getSubscriptionStatus_def isActive_def isTrial_def isTrialExpired_def
      split: option.splits)

theorem C1_resolver_status_witness:
  "getSubscriptionStatus 5 ((sample_trial 0)\<lparr>us_status := ''canceled''\<rparr>) = ''none''"
  using C1_resolver_status [of "(sample_trial 0)\<lparr>us_status := ''canceled''\<rparr>" 5]
  by (simp add: sample_trial_def)

text \<open>
  C8 (as stated, refuted): for a record that went \<open>active\<close> while its trial window
  is still open, the resolver reports 0 days although the formula gives 3.
\<close>

theorem C8_formula_counterexample:
  "getTrialDaysRemaining 0 ((sample_trial 0)\<lparr>us_status := ''active''\<rparr>) = 0
   \<and> spec_trial_days_remaining 0 ((sample_trial 0)\<lparr>us_status := ''active''\<rparr>) = Some 3"
  by (simp add: getTrialDaysRemaining_def spec_trial_days_remaining_def isTrial_def
      sample_trial_def msPerDay_def)

text \<open>
  C8 (amended): for a record whose stored status is \<open>trial\<close>, the resolver's
  \<open>trial_days_remaining\<close> equals \<open>max(0, ceil((trial_end - now) / 1 day))\<close>; for a
  record with any other stored status, or without a \<open>trial_end\<close>, it is 0. A record
  with \<open>trial_start = T\<close>, \<open>trial_end = T + 3d\<close> resolves at \<open>T + 1d\<close> to \<open>trial\<close>
  with 2 days remaining and at \<open>T + 4d\<close> to \<open>expired\<close> with 0.
\<close>

theorem C8_trial_days_remaining:
  "(us_status r = ''trial'' \<longrightarrow>
      (\<forall>d. spec_trial_days_remaining now r = Some d \<longrightarrow> getTrialDaysRemaining now r = d))
   \<and> (us_status r \<noteq> ''trial'' \<or> us_trial_end r = None \<longrightarrow> getTrialDaysRemaining now r = 0)
   \<and> getSubscriptionStatus (T + msPerDay) (sample_trial T) = ''trial''
   \<and> getTrialDaysRemaining (T + msPerDay) (sample_trial T) = 2
   \<and> getSubscriptionStatus (T + 4 * msPerDay) (sample_trial T) = ''expired''
   \<and> getTrialDaysRemaining (T + 4 * msPerDay) (sample_trial T) = 0"
proof (intro conjI)
  show "us_status r = ''trial'' \<longrightarrow>
      (\<forall>d. spec_trial_days_remaining now r = Some d \<longrightarrow> getTrialDaysRemaining now r = d)"
  proof (intro impI allI)
    fix d
    assume st: "us_status r = ''trial''"
      and sp: "spec_trial_days_remaining now r = Some d"
    from sp obtain te where te: "us_trial_end r = Some te"
      and d: "d = max 0 (ceilDiv (te - now) msPerDay)"
      by (cases "us_trial_end r") (auto simp: spec_trial_days_remaining_int)
    show "getTrialDaysRemaining now r = d"
    proof (cases "te > now")
      case True
      then show ?thesis
        using st te d by (simp add: getTrialDaysRemaining_def isTrial_def)
    next
      case False
      then have "te - now \<le> 0" by simp
      then have "ceilDiv (te - now) msPerDay \<le> 0"
        by (simp add: ceilDiv_def msPerDay_def pos_imp_zdiv_nonneg_iff)
      then show ?thesis
        using False st te d by (simp add: getTrialDaysRemaining_def isTrial_def)
    qed
  qed
next
  show "us_status r \<noteq> ''trial'' \<or> us_trial_end r = None \<longrightarrow> getTrialDaysRemaining now r = 0"
    by (auto simp: getTrialDaysRemaining_def isTrial_def)
next
  show "getSubscriptionStatus (T + msPerDay) (sample_trial T) = ''trial''"
    by (simp add: getSubscriptionStatus_def isActive_def isTrial_def sample_trial_def
        msPerDay_def)
next
  show "getTrialDaysRemaining (T + msPerDay) (sample_trial T) = 2"
    by (simp add: getTrialDaysRemaining_def isTrial_def sample_trial_def msPerDay_def
        ceilDiv_def)
next
  show "getSubscriptionStatus (T + 4 * msPerDay) (sample_trial T) = ''expired''"
    by (simp add: getSubscriptionStatus_def isActive_def isTrial_def isTrialExpired_def
        sample_trial_def msPerDay_def)
next
  show "getTrialDaysRemaining (T + 4 * msPerDay) (sample_trial T) = 0"
    by (simp add: getTrialDaysRemaining_def isTrial_def sample_trial_def msPerDay_def)
qed

theorem C8_trial_days_remaining_witness:
  "us_status (sample_trial 0) = ''trial''
   \<and> spec_trial_days_remaining 1000 (sample_trial 0) = Some 3
   \<and> getTrialDaysRemaining 1000 (sample_trial 0) = 3"
proof -
  have sp: "spec_trial_days_remaining 1000 (sample_trial 0) = Some 3"
    by (simp add: spec_trial_days_remaining_def sample_trial_def msPerDay_def)
  have st: "us_status (sample_trial 0) = ''trial''"
    by (simp add: sample_trial_def)
  from C8_trial_days_remaining [of "sample_trial 0" 1000 0] st sp
  have "getTrialDaysRemaining 1000 (sample_trial 0) = 3" by blast
  with st sp show ?thesis by simp
qed

section \<open>Query lemmas\<close>

lemma single_eq_Some: "single xs = Some r \<longleftrightarrow> xs = [r]"
  by (cases xs; cases "tl xs") (auto simp: single_def split: list.splits)

lemma single_map: "single (map g xs) = map_option g (single xs)"
  by (cases xs; cases "tl xs") (auto simp: single_def split: list.splits)

lemma latest_eq_None: "latest rs = None \<longleftrightarrow> rs = []"
  by (cases rs) (auto split: option.splits)

lemma latest_mem: "latest rs = Some r \<Longrightarrow> r \<in> set rs"
  by (induction rs arbitrary: r) (auto split: option.splits if_splits)

lemma latest_map:
  assumes "\<And>r. us_created_at (g r) = us_created_at r"
  shows "latest (map g rs) = map_option g (latest rs)"
  by (induction rs) (auto simp: assms split: option.splits)

lemma filter_map_pres:
  assumes "\<And>r. P (g r) = P r"
  shows "filter P (map g rs) = map g (filter P rs)"
  by (induction rs) (auto simp: assms)

lemma map_upd_idem:
  assumes "\<And>r. us_id (f r) = us_id r" and "\<And>r. f (f r) = f r"
  shows "map (\<lambda>r. if us_id r = i then f r else r) (map (\<lambda>r. if us_id r = i then f r else r) rs)
         = map (\<lambda>r. if us_id r = i then f r else r) rs"
  by (induction rs) (auto simp: assms)

lemma getByStripeSubscriptionId_mem:
  "getByStripeSubscriptionId sid s = Some r \<Longrightarrow> r \<in> set (user_subscriptions s)"
proof -
  assume "getByStripeSubscriptionId sid s = Some r"
  then have "filter (\<lambda>r. us_stripe_subscription_id r = Some sid) (user_subscriptions s) = [r]"
    by (simp add: getByStripeSubscriptionId_def single_eq_Some)
  then have "r \<in> set (filter (\<lambda>r. us_stripe_subscription_id r = Some sid) (user_subscriptions s))"
    by simp
  then show ?thesis by simp
qed

lemma getByUid_mem: "getByUid u s = Some r \<Longrightarrow> r \<in> set (user_subscriptions s) \<and> us_uid r = Some u"
  using latest_mem [of "filter (\<lambda>r. us_uid r = Some u) (user_subscriptions s)" r]
  by (simp add: getByUid_def)

lemma getByDeviceId_mem:
  "getByDeviceId d s = Some r \<Longrightarrow> r \<in> set (user_subscriptions s) \<and> us_device_id r = Some d"
  using latest_mem [of "filter (\<lambda>r. us_device_id r = Some d) (user_subscriptions s)" r]
  by (simp add: getByDeviceId_def)

lemma getByStripeCustomerId_mem:
  "getByStripeCustomerId c s = Some r \<Longrightarrow> r \<in> set (user_subscriptions s)"
  using latest_mem [of "filter (\<lambda>r. us_stripe_customer_id r = Some c) (user_subscriptions s)" r]
  by (simp add: getByStripeCustomerId_def)

lemma update_found:
  "this \<in> set (user_subscriptions s) \<Longrightarrow>
   UserSubscription_update f this s =
     Inr (s\<lparr>user_subscriptions :=
              map (\<lambda>r. if us_id r = us_id this then f r else r) (user_subscriptions s)\<rparr>)"
  by (simp add: UserSubscription_update_def)

section \<open>Billing event processor: status mapping\<close>

lemma mappedStatus_table:
  "mappedStatus ''active'' = ''active''"
  "mappedStatus ''past_due'' = ''past_due''"
  "mappedStatus ''canceled'' = ''canceled''"
  "mappedStatus ''cancelled'' = ''canceled''"
  "mappedStatus ''incomplete'' = ''expired''"
  "mappedStatus ''incomplete_expired'' = ''expired''"
  "mappedStatus ''trialing'' = ''trial''"
  "mappedStatus ''unpaid'' = ''expired''"
  by (simp_all add: mappedStatus_def)

lemma mappedStatus_unknown:
  "st \<notin> {''active'', ''past_due'', ''canceled'', ''cancelled'', ''trialing''}
   \<Longrightarrow> mappedStatus st = ''expired''"
  by (simp add: mappedStatus_def)

lemma updated_result:
  "case getByStripeSubscriptionId (ss_id e) s of
      None \<Rightarrow> processEvent now newId (CustomerSubscriptionUpdated e) s = Inr s
    | Some r \<Rightarrow>
        processEvent now newId (CustomerSubscriptionUpdated e) s =
          Inr (s\<lparr>user_subscriptions :=
                   map (\<lambda>x. if us_id x = us_id r
                             then x\<lparr>us_status := mappedStatus (ss_status e)\<rparr> else x)
                     (user_subscriptions s)\<rparr>)"
  by (auto simp: handleSubscriptionUpdated_def updateStatus_def update_found
      dest: getByStripeSubscriptionId_mem split: option.splits)

lemma created_status_free:
  "handleSubscriptionCreated (c\<lparr>ss_status := st\<rparr>) s = handleSubscriptionCreated c s"
  by (simp add: handleSubscriptionCreated_def cong: option.case_cong)

lemma created_no_price:
  "\<not> truthy (ss_price_id c) \<Longrightarrow> handleSubscriptionCreated c s = Inr s"
  by (simp add: handleSubscriptionCreated_def)

lemma created_Inr:
  "handleSubscriptionCreated c s = Inr s1 \<Longrightarrow> s1 = s \<and> \<not> truthy (ss_price_id c)"
  by (auto simp: handleSubscriptionCreated_def destructured_StripePlan_def split: if_splits)

text \<open>
  C3 (as stated, refuted): a 'subscription updated' event with the status
  \<open>cancelled\<close>, which the claim's table does not list, is stored as \<open>canceled\<close>, not
  as \<open>expired\<close>; and a 'subscription created' event with the status \<open>past_due\<close>,
  for a subscription whose record exists, does not leave that record \<open>past_due\<close>:
  the handler ends in an exception and the record stays as it was.
\<close>

theorem C3_table_counterexample:
  "processEvent 0 ''n1'' (CustomerSubscriptionUpdated (sample_stripe_subscription ''cancelled''))
     sample_store
   = Inr (sample_store\<lparr>user_subscriptions := [sample_sub\<lparr>us_status := ''canceled''\<rparr>]\<rparr>)
   \<and> getByStripeSubscriptionId (ss_id (sample_stripe_subscription ''past_due'')) sample_store
       = Some sample_sub
   \<and> processEvent 0 ''n1'' (CustomerSubscriptionCreated (sample_stripe_subscription ''past_due''))
       sample_store
     = Inl TypeError"
  by (simp add: handleSubscriptionUpdated_def handleSubscriptionCreated_def
      destructured_StripePlan_def updateStatus_def UserSubscription_update_def
      getByStripeSubscriptionId_def mappedStatus_def sample_stripe_subscription_def
      sample_store_def sample_sub_def sample_trial_def truthy_def single_def)

text \<open>
  C3 (amended): for every 'subscription updated' event the processor maps the
  external status by the table \<open>active \<rightarrow> active\<close>, \<open>past_due \<rightarrow> past_due\<close>,
  \<open>canceled\<close> and \<open>cancelled \<rightarrow> canceled\<close>, \<open>incomplete\<close> and
  \<open>incomplete_expired \<rightarrow> expired\<close>, \<open>trialing \<rightarrow> trial\<close>, \<open>unpaid \<rightarrow> expired\<close>,
  anything else \<open>\<rightarrow> expired\<close>, and writes it on the record found by the external
  subscription id; when the lookup finds no record, the store is unchanged and the
  handler returns normally. A 'subscription created' event is not mapped through
  the table: what processing it does is the same for every external status, and
  without a price id it changes nothing and returns normally.
\<close>

theorem C3_subscription_events:
  "(case getByStripeSubscriptionId (ss_id e) s of
      None \<Rightarrow> processEvent now newId (CustomerSubscriptionUpdated e) s = Inr s
    | Some r \<Rightarrow>
        processEvent now newId (CustomerSubscriptionUpdated e) s =
          Inr (s\<lparr>user_subscriptions :=
                   map (\<lambda>x. if us_id x = us_id r
                             then x\<lparr>us_status := mappedStatus (ss_status e)\<rparr> else x)
                     (user_subscriptions s)\<rparr>))
   \<and> mappedStatus ''active'' = ''active''
   \<and> mappedStatus ''past_due'' = ''past_due''
   \<and> mappedStatus ''canceled'' = ''canceled''
   \<and> mappedStatus ''cancelled'' = ''canceled''
   \<and> mappedStatus ''incomplete'' = ''expired''
   \<and> mappedStatus ''incomplete_expired'' = ''expired''
   \<and> mappedStatus ''trialing'' = ''trial''
   \<and> mappedStatus ''unpaid'' = ''expired''
   \<and> (st \<notin> {''active'', ''past_due'', ''canceled'', ''cancelled'', ''trialing''}
        \<longrightarrow> mappedStatus st = ''expired'')
   \<and> processEvent now newId (CustomerSubscriptionCreated (c\<lparr>ss_status := sx\<rparr>)) s
       = processEvent now newId (CustomerSubscriptionCreated c) s
   \<and> (\<not> truthy (ss_price_id c) \<longrightarrow>
        processEvent now newId (CustomerSubscriptionCreated c) s = Inr s)"
proof (intro conjI)
  show "case getByStripeSubscriptionId (ss_id e) s of
      None \<Rightarrow> processEvent now newId (CustomerSubscriptionUpdated e) s = Inr s
    | Some r \<Rightarrow>
        processEvent now newId (CustomerSubscriptionUpdated e) s =
          Inr (s\<lparr>user_subscriptions :=
                   map (\<lambda>x. if us_id x = us_id r
                             then x\<lparr>us_status := mappedStatus (ss_status e)\<rparr> else x)
                     (user_subscriptions s)\<rparr>)"
    by (rule updated_result)
next
  show "st \<notin> {''active'', ''past_due'', ''canceled'', ''cancelled'', ''trialing''}
        \<longrightarrow> mappedStatus st = ''expired''"
    by (rule impI) (rule mappedStatus_unknown)
next
  show "processEvent now newId (CustomerSubscriptionCreated (c\<lparr>ss_status := sx\<rparr>)) s
       = processEvent now newId (CustomerSubscriptionCreated c) s"
    by (simp add: created_status_free)
next
  show "\<not> truthy (ss_price_id c) \<longrightarrow>
        processEvent now newId (CustomerSubscriptionCreated c) s = Inr s"
    by (simp add: created_no_price)
qed (simp_all add: mappedStatus_table)

theorem C3_subscription_events_witness:
  "processEvent 7 ''n1'' (CustomerSubscriptionUpdated (sample_stripe_subscription ''past_due''))
     sample_store
   = Inr (sample_store\<lparr>user_subscriptions := [sample_sub\<lparr>us_status := ''past_due''\<rparr>]\<rparr>)
   \<and> us_status sample_sub = ''trial''
   \<and> mappedStatus ''paused'' = ''expired''
   \<and> processEvent 7 ''n1''
        (CustomerSubscriptionCreated ((sample_stripe_subscription ''active'')\<lparr>ss_price_id := None\<rparr>))
        sample_store
     = Inr sample_store"
proof -
  have g: "getByStripeSubscriptionId (ss_id (sample_stripe_subscription ''past_due'')) sample_store
           = Some sample_sub"
    by (simp add: getByStripeSubscriptionId_def sample_stripe_subscription_def sample_store_def
        sample_sub_def single_def)
  have n: "''paused'' \<notin> {''active'', ''past_due'', ''canceled'', ''cancelled'', ''trialing''}"
    by simp
  have p: "\<not> truthy (ss_price_id ((sample_stripe_subscription ''active'')\<lparr>ss_price_id := None\<rparr>))"
    by (simp add: truthy_def)
  note inst = C3_subscription_events [where e = "sample_stripe_subscription ''past_due''"
      and s = sample_store and now = 7 and newId = "''n1''" and st = "''paused''"
      and c = "(sample_stripe_subscription ''active'')\<lparr>ss_price_id := None\<rparr>"
      and sx = "''active''"]
  have upd: "processEvent 7 ''n1''
      (CustomerSubscriptionUpdated (sample_stripe_subscription ''past_due'')) sample_store
      = Inr (sample_store\<lparr>user_subscriptions := [sample_sub\<lparr>us_status := ''past_due''\<rparr>]\<rparr>)"
    using inst [THEN conjunct1] g
    by (simp add: sample_store_def sample_stripe_subscription_def mappedStatus_table)
  have unk: "mappedStatus ''paused'' = ''expired''"
    using inst [THEN conjunct2, THEN conjunct2, THEN conjunct2, THEN conjunct2, THEN conjunct2,
        THEN conjunct2, THEN conjunct2, THEN conjunct2, THEN conjunct2, THEN conjunct1] n
    by simp
  have cre: "processEvent 7 ''n1''
        (CustomerSubscriptionCreated ((sample_stripe_subscription ''active'')\<lparr>ss_price_id := None\<rparr>))
        sample_store = Inr sample_store"
    using inst [THEN conjunct2, THEN conjunct2, THEN conjunct2, THEN conjunct2, THEN conjunct2,
        THEN conjunct2, THEN conjunct2, THEN conjunct2, THEN conjunct2, THEN conjunct2,
        THEN conjunct2] p
    by simp
  have "us_status sample_sub = ''trial''"
    by (simp add: sample_sub_def sample_trial_def)
  with upd unk cre show ?thesis by simp
qed

section \<open>Billing event processor: replay\<close>

lemma single_filter_upd:
  assumes "single (filter P rows) = Some r"
    and "\<And>x. P (f x) = P x"
  shows "single (filter P (map (\<lambda>x. if us_id x = i then f x else x) rows))
         = Some (if us_id r = i then f r else r)"
proof -
  have "filter P (map (\<lambda>x. if us_id x = i then f x else x) rows)
        = map (\<lambda>x. if us_id x = i then f x else x) (filter P rows)"
    by (rule filter_map_pres) (simp add: assms(2))
  then show ?thesis
    using assms(1) by (simp add: single_map)
qed

lemma latest_filter_upd:
  assumes "latest (filter P rows) = Some r"
    and "\<And>x. P (f x) = P x"
    and "\<And>x. us_created_at (f x) = us_created_at x"
  shows "latest (filter P (map (\<lambda>x. if us_id x = i then f x else x) rows))
         = Some (if us_id r = i then f r else r)"
proof -
  have "filter P (map (\<lambda>x. if us_id x = i then f x else x) rows)
        = map (\<lambda>x. if us_id x = i then f x else x) (filter P rows)"
    by (rule filter_map_pres) (simp add: assms(2))
  moreover have "latest (map (\<lambda>x. if us_id x = i then f x else x) (filter P rows))
        = map_option (\<lambda>x. if us_id x = i then f x else x) (latest (filter P rows))"
    by (rule latest_map) (simp add: assms(3))
  ultimately show ?thesis
    using assms(1) by simp
qed

lemma update_twice:
  assumes mem: "r \<in> set (user_subscriptions s)"
    and id: "\<And>x. us_id (f x) = us_id x"
    and idem: "\<And>x. f (f x) = f x"
  shows "UserSubscription_update f (f r)
           (s\<lparr>user_subscriptions :=
                map (\<lambda>x. if us_id x = us_id r then f x else x) (user_subscriptions s)\<rparr>)
         = Inr (s\<lparr>user_subscriptions :=
                map (\<lambda>x. if us_id x = us_id r then f x else x) (user_subscriptions s)\<rparr>)"
proof -
  let ?g = "\<lambda>x. if us_id x = us_id r then f x else x"
  let ?s1 = "s\<lparr>user_subscriptions := map ?g (user_subscriptions s)\<rparr>"
  have "f r \<in> set (user_subscriptions ?s1)"
    using mem by (auto simp: image_iff intro!: bexI [of _ r])
  then have "UserSubscription_update f (f r) ?s1
     = Inr (?s1\<lparr>user_subscriptions :=
              map (\<lambda>x. if us_id x = us_id (f r) then f x else x) (user_subscriptions ?s1)\<rparr>)"
    by (rule update_found)
  also have "map (\<lambda>x. if us_id x = us_id (f r) then f x else x) (user_subscriptions ?s1)
     = map ?g (user_subscriptions s)"
    using map_upd_idem [of f "us_id r" "user_subscriptions s"] id idem by simp
  finally show ?thesis by simp
qed

lemma by_subscription_id_replay:
  assumes run: "(case getByStripeSubscriptionId sid s of
                   None \<Rightarrow> Inr s | Some r \<Rightarrow> UserSubscription_update f r s) = Inr s1"
    and key: "\<And>x. us_stripe_subscription_id (f x) = us_stripe_subscription_id x"
    and id: "\<And>x. us_id (f x) = us_id x"
    and idem: "\<And>x. f (f x) = f x"
  shows "(case getByStripeSubscriptionId sid s1 of
            None \<Rightarrow> Inr s1 | Some r \<Rightarrow> UserSubscription_update f r s1) = Inr s1"
proof (cases "getByStripeSubscriptionId sid s")
  case None
  with run show ?thesis by simp
next
  case (Some r)
  then have mem: "r \<in> set (user_subscriptions s)"
    by (rule getByStripeSubscriptionId_mem)
  with run Some have s1: "s1 = s\<lparr>user_subscriptions :=
      map (\<lambda>x. if us_id x = us_id r then f x else x) (user_subscriptions s)\<rparr>"
    by (simp add: update_found)
  have "getByStripeSubscriptionId sid s1 = Some (f r)"
    using single_filter_upd [of "\<lambda>x. us_stripe_subscription_id x = Some sid"
        "user_subscriptions s" r f "us_id r"] Some key
    by (simp add: getByStripeSubscriptionId_def s1)
  then show ?thesis
    using update_twice [OF mem id idem] by (simp add: s1)
qed

lemma latest_replay:
  assumes look: "latest (filter P (user_subscriptions s)) = Some r"
    and key: "\<And>x. P (f x) = P x"
    and cr: "\<And>x. us_created_at (f x) = us_created_at x"
    and id: "\<And>x. us_id (f x) = us_id x"
    and idem: "\<And>x. f (f x) = f x"
  shows "\<exists>s1. UserSubscription_update f r s = Inr s1
           \<and> latest (filter P (user_subscriptions s1)) = Some (f r)
           \<and> UserSubscription_update f (f r) s1 = Inr s1
           \<and> devices s1 = devices s \<and> stripe_plans s1 = stripe_plans s"
proof -
  let ?s1 = "s\<lparr>user_subscriptions :=
      map (\<lambda>x. if us_id x = us_id r then f x else x) (user_subscriptions s)\<rparr>"
  have mem: "r \<in> set (user_subscriptions s)"
    using latest_mem [OF look] by simp
  then have "UserSubscription_update f r s = Inr ?s1"
    by (rule update_found)
  moreover have "latest (filter P (user_subscriptions ?s1)) = Some (f r)"
    using latest_filter_upd [of P "user_subscriptions s" r f "us_id r"] look key cr by simp
  moreover have "UserSubscription_update f (f r) ?s1 = Inr ?s1"
    by (rule update_twice [OF mem id idem])
  ultimately show ?thesis by simp
qed

lemma create_replay:
  assumes none: "latest (filter P (user_subscriptions s)) = None"
    and run: "UserSubscription_create (f row) s = Inr s1"
    and P: "P (f row)"
    and id: "\<And>x. us_id (f x) = us_id x"
    and idem: "\<And>x. f (f x) = f x"
  shows "latest (filter P (user_subscriptions s1)) = Some (f row)
         \<and> UserSubscription_update f (f row) s1 = Inr s1
         \<and> devices s1 = devices s"
proof -
  from run have fresh: "us_id (f row) \<notin> set (map us_id (user_subscriptions s))"
    and s1: "s1 = s\<lparr>user_subscriptions := user_subscriptions s @ [f row]\<rparr>"
    by (auto simp: UserSubscription_create_def split: if_splits)
  from none have "filter P (user_subscriptions s) = []"
    by (simp add: latest_eq_None)
  then have l: "latest (filter P (user_subscriptions s1)) = Some (f row)"
    using P by (simp add: s1)
  have "map (\<lambda>x. if us_id x = us_id (f row) then f x else x) (user_subscriptions s)
        = user_subscriptions s"
  proof (rule map_idI)
    fix x
    assume "x \<in> set (user_subscriptions s)"
    then have "us_id x \<in> set (map us_id (user_subscriptions s))" by simp
    with fresh have "us_id x \<noteq> us_id (f row)" by metis
    then show "(if us_id x = us_id (f row) then f x else x) = x" by simp
  qed
  then have "UserSubscription_update f (f row) s1 = Inr s1"
    by (simp add: UserSubscription_update_def s1 idem)
  with l show ?thesis by (simp add: s1)
qed

lemma subscriptionData_simps:
  "us_id (subscriptionData session x) = us_id x"
  "us_uid (subscriptionData session x) = us_uid x"
  "us_device_id (subscriptionData session x) = us_device_id x"
  "us_created_at (subscriptionData session x) = us_created_at x"
  "us_trial_start (subscriptionData session x) = us_trial_start x"
  "us_trial_end (subscriptionData session x) = us_trial_end x"
  "us_status (subscriptionData session x) = ''active''"
  "subscriptionData session (subscriptionData session x) = subscriptionData session x"
  by (simp_all add: subscriptionData_def)

lemma truthy_the: "truthy v \<Longrightarrow> v = Some (the v)"
  by (cases v) (simp_all add: truthy_def)

lemma Device_getById_cong: "devices s1 = devices s \<Longrightarrow> Device_getById g s1 = Device_getById g s"
  by (simp add: Device_getById_def)

lemma getByStripePriceId_cong:
  "stripe_plans s1 = stripe_plans s \<Longrightarrow> getByStripePriceId p s1 = getByStripePriceId p s"
  by (simp add: getByStripePriceId_def)

lemma checkout_replay:
  assumes run: "handleCheckoutSessionCompleted now1 id1 session s = Inr s1"
  shows "handleCheckoutSessionCompleted now2 id2 session s1 = Inr s1"
proof -
  let ?f = "subscriptionData session"
  let ?uid = "cs_metadata_uid session"
  let ?guest = "cs_metadata_guest_id session"
  consider (none) "\<not> truthy ?uid" "\<not> truthy ?guest"
    | (user) "truthy ?uid"
    | (guest) "\<not> truthy ?uid" "truthy ?guest"
    by blast
  then show ?thesis
  proof cases
    case none
    with run show ?thesis by (simp add: handleCheckoutSessionCompleted_def)
  next
    case user
    let ?P = "\<lambda>r. us_uid r = Some (the ?uid)"
    show ?thesis
    proof (cases "getByUid (the ?uid) s")
      case (Some r)
      then have look: "latest (filter ?P (user_subscriptions s)) = Some r"
        by (simp add: getByUid_def)
      from latest_replay [of ?P s r ?f, OF look]
      obtain s' where "UserSubscription_update ?f r s = Inr s'"
        and "latest (filter ?P (user_subscriptions s')) = Some (?f r)"
        and "UserSubscription_update ?f (?f r) s' = Inr s'"
        by (auto simp: subscriptionData_simps)
      moreover from run user Some have "UserSubscription_update ?f r s = Inr s1"
        by (simp add: handleCheckoutSessionCompleted_def)
      ultimately show ?thesis
        using user by (simp add: handleCheckoutSessionCompleted_def getByUid_def)
    next
      case None
      let ?row = "(insert_row id1 now1 ''active'')\<lparr>us_uid := ?uid\<rparr>"
      from None have look: "latest (filter ?P (user_subscriptions s)) = None"
        by (simp add: getByUid_def)
      from run user None have cr: "UserSubscription_create (?f ?row) s = Inr s1"
        by (simp add: handleCheckoutSessionCompleted_def)
      have P: "?P (?f ?row)"
        using truthy_the [OF user] by (simp add: subscriptionData_simps)
      from create_replay [of ?P s ?f ?row s1, OF look cr P]
      have "latest (filter ?P (user_subscriptions s1)) = Some (?f ?row)"
        and "UserSubscription_update ?f (?f ?row) s1 = Inr s1"
        by (simp_all add: subscriptionData_simps)
      then show ?thesis
        using user by (simp add: handleCheckoutSessionCompleted_def getByUid_def)
    qed
  next
    case guest
    show ?thesis
    proof (cases "Device_getById (the ?guest) s")
      case None
      with run guest show ?thesis by (simp add: handleCheckoutSessionCompleted_def)
    next
      case dev: (Some device)
      let ?P = "\<lambda>r. us_device_id r = Some (dev_id device)"
      show ?thesis
      proof (cases "getByDeviceId (dev_id device) s")
        case (Some r)
        then have look: "latest (filter ?P (user_subscriptions s)) = Some r"
          by (simp add: getByDeviceId_def)
        from latest_replay [of ?P s r ?f, OF look]
        obtain s' where u: "UserSubscription_update ?f r s = Inr s'"
          and l: "latest (filter ?P (user_subscriptions s')) = Some (?f r)"
          and u2: "UserSubscription_update ?f (?f r) s' = Inr s'"
          and d: "devices s' = devices s"
          by (auto simp: subscriptionData_simps)
        from run guest dev Some have "UserSubscription_update ?f r s = Inr s1"
          by (simp add: handleCheckoutSessionCompleted_def)
        with u have eq: "s' = s1" by simp
        have dev1: "Device_getById (the ?guest) s1 = Some device"
          using dev d by (simp add: Device_getById_def eq [symmetric])
        have sub1: "getByDeviceId (dev_id device) s1 = Some (?f r)"
          using l by (simp add: getByDeviceId_def eq [symmetric])
        have "UserSubscription_update ?f (?f r) s1 = Inr s1"
          using u2 by (simp add: eq [symmetric])
        then show ?thesis
          unfolding handleCheckoutSessionCompleted_def using guest dev1 sub1 by simp
      next
        case None
        let ?row = "(insert_row id1 now1 ''active'')\<lparr>us_device_id := Some (dev_id device)\<rparr>"
        from None have look: "latest (filter ?P (user_subscriptions s)) = None"
          by (simp add: getByDeviceId_def)
        from run guest dev None have cr: "UserSubscription_create (?f ?row) s = Inr s1"
          by (simp add: handleCheckoutSessionCompleted_def)
        have P: "?P (?f ?row)"
          by (simp add: subscriptionData_simps)
        from create_replay [of ?P s ?f ?row s1, OF look cr P]
        have l: "latest (filter ?P (user_subscriptions s1)) = Some (?f ?row)"
          and u2: "UserSubscription_update ?f (?f ?row) s1 = Inr s1"
          and d: "devices s1 = devices s"
          by (simp_all add: subscriptionData_simps)
        have dev1: "Device_getById (the ?guest) s1 = Some device"
          using dev d by (simp add: Device_getById_def)
        have sub1: "getByDeviceId (dev_id device) s1 = Some (?f ?row)"
          using l by (simp add: getByDeviceId_def)
        show ?thesis
          unfolding handleCheckoutSessionCompleted_def using guest dev1 sub1 u2 by simp
      qed
    qed
  qed
qed

lemma status_replay:
  assumes "(case getByStripeSubscriptionId sid s of
              None \<Rightarrow> Inr s | Some r \<Rightarrow> updateStatus st r s) = Inr s1"
  shows "(case getByStripeSubscriptionId sid s1 of
            None \<Rightarrow> Inr s1 | Some r \<Rightarrow> updateStatus st r s1) = Inr s1"
  unfolding updateStatus_def
  by (rule by_subscription_id_replay [OF assms [unfolded updateStatus_def]]) simp_all

lemma created_replay:
  assumes run: "handleSubscriptionCreated c s = Inr s1"
  shows "handleSubscriptionCreated c s1 = Inr s1"
  using created_Inr [OF run] by (simp add: created_no_price)

lemma processEvent_replay:
  "processEvent now1 id1 ev s = Inr s1 \<Longrightarrow> processEvent now2 id2 ev s1 = Inr s1"
proof (cases ev)
  case (CheckoutSessionCompleted session)
  then show "processEvent now1 id1 ev s = Inr s1 \<Longrightarrow> ?thesis"
    by (simp add: checkout_replay)
next
  case (InvoicePaymentSucceeded invoice)
  then show "processEvent now1 id1 ev s = Inr s1 \<Longrightarrow> ?thesis"
    using status_replay [where sid = "the (inv_subscription invoice)" and s = s
        and st = "''active''" and ?s1.0 = s1]
    by (simp add: handleInvoicePaymentSucceeded_def split: if_splits)
next
  case (InvoicePaymentFailed invoice)
  then show "processEvent now1 id1 ev s = Inr s1 \<Longrightarrow> ?thesis"
    using status_replay [where sid = "the (inv_subscription invoice)" and s = s
        and st = "''past_due''" and ?s1.0 = s1]
    by (simp add: handleInvoicePaymentFailed_def split: if_splits)
next
  case (CustomerSubscriptionCreated c)
  then show "processEvent now1 id1 ev s = Inr s1 \<Longrightarrow> ?thesis"
    by (simp add: created_replay)
next
  case (CustomerSubscriptionUpdated e)
  then show "processEvent now1 id1 ev s = Inr s1 \<Longrightarrow> ?thesis"
    using status_replay [where sid = "ss_id e" and s = s
        and st = "mappedStatus (ss_status e)" and ?s1.0 = s1]
    by (simp add: handleSubscriptionUpdated_def)
next
  case (CustomerSubscriptionDeleted e)
  then show "processEvent now1 id1 ev s = Inr s1 \<Longrightarrow> ?thesis"
    using status_replay [where sid = "ss_id e" and s = s
        and st = "''canceled''" and ?s1.0 = s1]
    by (simp add: handleSubscriptionDeleted_def)
next
  case (UnhandledEvent ty)
  then show "processEvent now1 id1 ev s = Inr s1 \<Longrightarrow> ?thesis"
    by simp
qed

lemma checkout_length:
  "handleCheckoutSessionCompleted now newId session s = Inr s1 \<Longrightarrow>
   length (user_subscriptions s1) \<le> Suc (length (user_subscriptions s))"
  by (auto simp: handleCheckoutSessionCompleted_def Let_def UserSubscription_update_def
      UserSubscription_create_def split: if_splits option.splits)

lemma canceled_twice:
  assumes look: "getByStripeSubscriptionId (ss_id e) s = Some r"
    and st: "ss_status e = ''canceled''"
  shows "\<exists>s2. handleSubscriptionUpdated e s = Inr s2
           \<and> handleSubscriptionUpdated e s2 = Inr s2
           \<and> filter (\<lambda>x. us_stripe_subscription_id x = Some (ss_id e)) (user_subscriptions s2)
               = [r\<lparr>us_status := ''canceled''\<rparr>]
           \<and> length (user_subscriptions s2) = length (user_subscriptions s)"
proof -
  let ?g = "\<lambda>x. if us_id x = us_id r then x\<lparr>us_status := ''canceled''\<rparr> else x"
  let ?s2 = "s\<lparr>user_subscriptions := map ?g (user_subscriptions s)\<rparr>"
  have mem: "r \<in> set (user_subscriptions s)"
    using look by (rule getByStripeSubscriptionId_mem)
  have run: "handleSubscriptionUpdated e s = Inr ?s2"
    using look st mem
    by (simp add: handleSubscriptionUpdated_def updateStatus_def update_found mappedStatus_table)
  have again: "handleSubscriptionUpdated e ?s2 = Inr ?s2"
    using status_replay [where sid = "ss_id e" and s = s
        and st = "mappedStatus (ss_status e)" and ?s1.0 = ?s2] run
    by (simp add: handleSubscriptionUpdated_def)
  have "filter (\<lambda>x. us_stripe_subscription_id x = Some (ss_id e)) (map ?g (user_subscriptions s))
        = map ?g (filter (\<lambda>x. us_stripe_subscription_id x = Some (ss_id e)) (user_subscriptions s))"
    by (rule filter_map_pres) simp
  also have "\<dots> = [r\<lparr>us_status := ''canceled''\<rparr>]"
    using look by (simp add: getByStripeSubscriptionId_def single_eq_Some)
  finally show ?thesis
    using run again by simp
qed

text \<open>
  C4: when an event has been processed, processing the identical event again (at any
  later time, with any fresh id on offer) returns normally and leaves the store as it
  is. A replayed checkout-completed event therefore adds no record: both runs
  together create at most one. A 'subscription updated' event with status \<open>canceled\<close>
  whose record is found, processed twice, leaves the table at its length with exactly
  one record under that subscription id, in status \<open>canceled\<close>.
\<close>

theorem C4_replay_idempotent:
  "(processEvent now1 id1 ev s = Inr s1 \<longrightarrow> processEvent now2 id2 ev s1 = Inr s1)
   \<and> (processEvent now1 id1 (CheckoutSessionCompleted session) s = Inr s1' \<longrightarrow>
        processEvent now2 id2 (CheckoutSessionCompleted session) s1' = Inr s1'
        \<and> length (user_subscriptions s1') \<le> Suc (length (user_subscriptions s)))
   \<and> (ss_status e = ''canceled'' \<and> getByStripeSubscriptionId (ss_id e) s = Some r \<longrightarrow>
        (\<exists>s2. processEvent now1 id1 (CustomerSubscriptionUpdated e) s = Inr s2
           \<and> processEvent now2 id2 (CustomerSubscriptionUpdated e) s2 = Inr s2
           \<and> filter (\<lambda>x. us_stripe_subscription_id x = Some (ss_id e)) (user_subscriptions s2)
               = [r\<lparr>us_status := ''canceled''\<rparr>]
           \<and> length (user_subscriptions s2) = length (user_subscriptions s)))"
proof (intro conjI impI)
  assume "processEvent now1 id1 ev s = Inr s1"
  then show "processEvent now2 id2 ev s1 = Inr s1"
    by (rule processEvent_replay)
next
  assume "processEvent now1 id1 (CheckoutSessionCompleted session) s = Inr s1'"
  then show "processEvent now2 id2 (CheckoutSessionCompleted session) s1' = Inr s1'"
    by (rule processEvent_replay)
next
  assume "processEvent now1 id1 (CheckoutSessionCompleted session) s = Inr s1'"
  then show "length (user_subscriptions s1') \<le> Suc (length (user_subscriptions s))"
    by (simp add: checkout_length)
next
  assume "ss_status e = ''canceled'' \<and> getByStripeSubscriptionId (ss_id e) s = Some r"
  then show "\<exists>s2. processEvent now1 id1 (CustomerSubscriptionUpdated e) s = Inr s2
           \<and> processEvent now2 id2 (CustomerSubscriptionUpdated e) s2 = Inr s2
           \<and> filter (\<lambda>x. us_stripe_subscription_id x = Some (ss_id e)) (user_subscriptions s2)
               = [r\<lparr>us_status := ''canceled''\<rparr>]
           \<and> length (user_subscriptions s2) = length (user_subscriptions s)"
    using canceled_twice [of e s r] by simp
qed

theorem C4_replay_idempotent_witness:
  "processEvent 10 ''n1'' (CheckoutSessionCompleted sample_checkout_user) sample_store
     = Inr (sample_store\<lparr>user_subscriptions :=
              [sample_sub,
               subscriptionData sample_checkout_user
                 ((insert_row ''n1'' 10 ''active'')\<lparr>us_uid := Some ''u1''\<rparr>)]\<rparr>)
   \<and> processEvent 20 ''n2'' (CheckoutSessionCompleted sample_checkout_user)
       (sample_store\<lparr>user_subscriptions :=
              [sample_sub,
               subscriptionData sample_checkout_user
                 ((insert_row ''n1'' 10 ''active'')\<lparr>us_uid := Some ''u1''\<rparr>)]\<rparr>)
     = Inr (sample_store\<lparr>user_subscriptions :=
              [sample_sub,
               subscriptionData sample_checkout_user
                 ((insert_row ''n1'' 10 ''active'')\<lparr>us_uid := Some ''u1''\<rparr>)]\<rparr>)"
proof -
  let ?s1 = "sample_store\<lparr>user_subscriptions :=
              [sample_sub,
               subscriptionData sample_checkout_user
                 ((insert_row ''n1'' 10 ''active'')\<lparr>us_uid := Some ''u1''\<rparr>)]\<rparr>"
  have first:
    "processEvent 10 ''n1'' (CheckoutSessionCompleted sample_checkout_user) sample_store = Inr ?s1"
    by (simp add: handleCheckoutSessionCompleted_def sample_checkout_user_def sample_store_def
        sample_sub_def sample_trial_def truthy_def getByUid_def UserSubscription_create_def
        insert_row_def Let_def subscriptionData_def)
  from C4_replay_idempotent [where ev = "CheckoutSessionCompleted sample_checkout_user"
      and s = sample_store and ?s1.0 = ?s1 and ?now1.0 = 10 and ?id1.0 = "''n1''"
      and ?now2.0 = 20 and ?id2.0 = "''n2''"] first
  have "processEvent 20 ''n2'' (CheckoutSessionCompleted sample_checkout_user) ?s1 = Inr ?s1"
    by blast
  with first show ?thesis by simp
qed

section \<open>Checkout during a trial\<close>

lemma checkout_user_trial:
  assumes uid: "truthy (cs_metadata_uid session)"
    and look: "getByUid (the (cs_metadata_uid session)) s = Some r"
  shows "\<exists>s'. processEvent now newId (CheckoutSessionCompleted session) s = Inr s'
           \<and> getByUid (the (cs_metadata_uid session)) s' = Some (subscriptionData session r)
           \<and> check_subscription now' (cs_metadata_uid session) g s'
               = Success \<lparr> sv_status = ''active'',
                           sv_plan = None,
                           sv_trialStart = us_trial_start r,
                           sv_trialEnd = us_trial_end r,
                           sv_licenseKey = None \<rparr>"
proof -
  let ?f = "subscriptionData session"
  let ?P = "\<lambda>r. us_uid r = Some (the (cs_metadata_uid session))"
  from look have l: "latest (filter ?P (user_subscriptions s)) = Some r"
    by (simp add: getByUid_def)
  from latest_replay [of ?P s r ?f, OF l]
  obtain s' where u: "UserSubscription_update ?f r s = Inr s'"
    and l': "latest (filter ?P (user_subscriptions s')) = Some (?f r)"
    by (auto simp: subscriptionData_simps)
  have run: "processEvent now newId (CheckoutSessionCompleted session) s = Inr s'"
    using uid look u by (simp add: handleCheckoutSessionCompleted_def)
  have get: "getByUid (the (cs_metadata_uid session)) s' = Some (?f r)"
    using l' by (simp add: getByUid_def)
  have plan: "us_plan_id (?f r) = None"
    by (simp add: subscriptionData_def)
  have "check_subscription now' (cs_metadata_uid session) g s'
        = Success \<lparr> sv_status = ''active'', sv_plan = None,
                    sv_trialStart = us_trial_start r, sv_trialEnd = us_trial_end r,
                    sv_licenseKey = None \<rparr>"
    using uid get plan
    by (simp add: check_subscription_def getSubscriptionStatus_def isActive_def truthy_def
        subscriptionData_simps)
  with run get show ?thesis by simp
qed

lemma checkout_guest_trial:
  assumes uid: "\<not> truthy (cs_metadata_uid session)"
    and guest: "truthy (cs_metadata_guest_id session)"
    and dev: "Device_getById (the (cs_metadata_guest_id session)) s = Some d"
    and look: "getByDeviceId (dev_id d) s = Some r"
  shows "\<exists>s'. processEvent now newId (CheckoutSessionCompleted session) s = Inr s'
           \<and> Device_getById (the (cs_metadata_guest_id session)) s' = Some d
           \<and> getByDeviceId (dev_id d) s' = Some (subscriptionData session r)
           \<and> check_subscription now' None (cs_metadata_guest_id session) s'
               = Success \<lparr> sv_status = ''active'',
                           sv_plan = None,
                           sv_trialStart = us_trial_start r,
                           sv_trialEnd = us_trial_end r,
                           sv_licenseKey = None \<rparr>"
proof -
  let ?f = "subscriptionData session"
  let ?P = "\<lambda>r. us_device_id r = Some (dev_id d)"
  from look have l: "latest (filter ?P (user_subscriptions s)) = Some r"
    by (simp add: getByDeviceId_def)
  from latest_replay [of ?P s r ?f, OF l]
  obtain s' where u: "UserSubscription_update ?f r s = Inr s'"
    and l': "latest (filter ?P (user_subscriptions s')) = Some (?f r)"
    and d': "devices s' = devices s"
    by (auto simp: subscriptionData_simps)
  have run: "processEvent now newId (CheckoutSessionCompleted session) s = Inr s'"
    using uid guest dev look u by (simp add: handleCheckoutSessionCompleted_def)
  have dev': "Device_getById (the (cs_metadata_guest_id session)) s' = Some d"
    using dev d' by (simp add: Device_getById_def)
  have get: "getByDeviceId (dev_id d) s' = Some (?f r)"
    using l' by (simp add: getByDeviceId_def)
  have plan: "us_plan_id (?f r) = None"
    by (simp add: subscriptionData_def)
  have "check_subscription now' None (cs_metadata_guest_id session) s'
        = Success \<lparr> sv_status = ''active'', sv_plan = None,
                    sv_trialStart = us_trial_start r, sv_trialEnd = us_trial_end r,
                    sv_licenseKey = None \<rparr>"
    using guest dev' get plan
    by (simp add: check_subscription_def getSubscriptionStatus_def isActive_def truthy_def
        subscriptionData_simps)
  with run dev' get show ?thesis by simp
qed

text \<open>
  C5: let an identity's current record \<open>r\<close> (the one the resolver finds: by uid
  for an authenticated user, through the device for a guest) be in an active trial.
  Processing a checkout-completed event for that identity succeeds; afterwards the
  identity's current record is the same row with status \<open>active\<close> and with
  \<open>trial_start\<close> and \<open>trial_end\<close> as before, and the status check that follows
  reports the original \<open>trial_start\<close> and \<open>trial_end\<close>.
\<close>

theorem C5_checkout_keeps_trial:
  "(truthy (cs_metadata_uid session)
      \<and> getByUid (the (cs_metadata_uid session)) s = Some r \<and> isTrial now r \<longrightarrow>
      (\<exists>s' r' v.
          processEvent now newId (CheckoutSessionCompleted session) s = Inr s'
          \<and> getByUid (the (cs_metadata_uid session)) s' = Some r'
          \<and> us_id r' = us_id r \<and> us_status r' = ''active''
          \<and> us_trial_start r' = us_trial_start r \<and> us_trial_end r' = us_trial_end r
          \<and> check_subscription now' (cs_metadata_uid session) g s' = Success v
          \<and> sv_trialStart v = us_trial_start r \<and> sv_trialEnd v = us_trial_end r))
   \<and> (\<not> truthy (cs_metadata_uid session) \<and> truthy (cs_metadata_guest_id session)
      \<and> Device_getById (the (cs_metadata_guest_id session)) s = Some d
      \<and> getByDeviceId (dev_id d) s = Some r \<and> isTrial now r \<longrightarrow>
      (\<exists>s' r' v.
          processEvent now newId (CheckoutSessionCompleted session) s = Inr s'
          \<and> Device_getById (the (cs_metadata_guest_id session)) s' = Some d
          \<and> getByDeviceId (dev_id d) s' = Some r'
          \<and> us_id r' = us_id r \<and> us_status r' = ''active''
          \<and> us_trial_start r' = us_trial_start r \<and> us_trial_end r' = us_trial_end r
          \<and> check_subscription now' None (cs_metadata_guest_id session) s' = Success v
          \<and> sv_trialStart v = us_trial_start r \<and> sv_trialEnd v = us_trial_end r))"
proof (intro conjI impI)
  assume a: "truthy (cs_metadata_uid session)
      \<and> getByUid (the (cs_metadata_uid session)) s = Some r \<and> isTrial now r"
  from checkout_user_trial [of session s r now newId now' g] a
  obtain s' where "processEvent now newId (CheckoutSessionCompleted session) s = Inr s'"
    and "getByUid (the (cs_metadata_uid session)) s' = Some (subscriptionData session r)"
    and "check_subscription now' (cs_metadata_uid session) g s'
          = Success \<lparr> sv_status = ''active'', sv_plan = None,
                      sv_trialStart = us_trial_start r, sv_trialEnd = us_trial_end r,
                      sv_licenseKey = None \<rparr>"
    by blast
  then show "\<exists>s' r' v.
          processEvent now newId (CheckoutSessionCompleted session) s = Inr s'
          \<and> getByUid (the (cs_metadata_uid session)) s' = Some r'
          \<and> us_id r' = us_id r \<and> us_status r' = ''active''
          \<and> us_trial_start r' = us_trial_start r \<and> us_trial_end r' = us_trial_end r
          \<and> check_subscription now' (cs_metadata_uid session) g s' = Success v
          \<and> sv_trialStart v = us_trial_start r \<and> sv_trialEnd v = us_trial_end r"
    by (simp add: subscriptionData_simps)
next
  assume a: "\<not> truthy (cs_metadata_uid session) \<and> truthy (cs_metadata_guest_id session)
      \<and> Device_getById (the (cs_metadata_guest_id session)) s = Some d
      \<and> getByDeviceId (dev_id d) s = Some r \<and> isTrial now r"
  from checkout_guest_trial [of session s d r now newId now'] a
  obtain s' where "processEvent now newId (CheckoutSessionCompleted session) s = Inr s'"
    and "Device_getById (the (cs_metadata_guest_id session)) s' = Some d"
    and "getByDeviceId (dev_id d) s' = Some (subscriptionData session r)"
    and "check_subscription now' None (cs_metadata_guest_id session) s'
          = Success \<lparr> sv_status = ''active'', sv_plan = None,
                      sv_trialStart = us_trial_start r, sv_trialEnd = us_trial_end r,
                      sv_licenseKey = None \<rparr>"
    by blast
  then show "\<exists>s' r' v.
          processEvent now newId (CheckoutSessionCompleted session) s = Inr s'
          \<and> Device_getById (the (cs_metadata_guest_id session)) s' = Some d
          \<and> getByDeviceId (dev_id d) s' = Some r'
          \<and> us_id r' = us_id r \<and> us_status r' = ''active''
          \<and> us_trial_start r' = us_trial_start r \<and> us_trial_end r' = us_trial_end r
          \<and> check_subscription now' None (cs_metadata_guest_id session) s' = Success v
          \<and> sv_trialStart v = us_trial_start r \<and> sv_trialEnd v = us_trial_end r"
    by (simp add: subscriptionData_simps)
qed

theorem C5_checkout_keeps_trial_witness:
  "isTrial msPerDay sample_sub
   \<and> (\<exists>s' v. processEvent msPerDay ''n1'' (CheckoutSessionCompleted sample_checkout_guest)
                sample_store = Inr s'
          \<and> check_subscription (msPerDay + 1) None (Some ''d1'') s' = Success v
          \<and> sv_trialEnd v = Some (3 * msPerDay))"
proof -
  have u: "\<not> truthy (cs_metadata_uid sample_checkout_guest)"
    and g: "truthy (cs_metadata_guest_id sample_checkout_guest)"
    by (simp_all add: sample_checkout_guest_def truthy_def)
  have d: "Device_getById (the (cs_metadata_guest_id sample_checkout_guest)) sample_store
           = Some sample_device"
    by (simp add: Device_getById_def sample_checkout_guest_def sample_store_def
        sample_device_def single_def)
  have r: "getByDeviceId (dev_id sample_device) sample_store = Some sample_sub"
    by (simp add: getByDeviceId_def sample_store_def sample_device_def sample_sub_def
        sample_trial_def)
  have t: "isTrial msPerDay sample_sub"
    by (simp add: isTrial_def sample_sub_def sample_trial_def msPerDay_def)
  from C5_checkout_keeps_trial [where session = sample_checkout_guest and s = sample_store
      and d = sample_device and r = sample_sub and now = msPerDay and newId = "''n1''"
      and now' = "msPerDay + 1"] u g d r t
  obtain s' v where
    "processEvent msPerDay ''n1'' (CheckoutSessionCompleted sample_checkout_guest) sample_store
       = Inr s'"
    and "check_subscription (msPerDay + 1) None (cs_metadata_guest_id sample_checkout_guest) s'
       = Success v"
    and "sv_trialEnd v = us_trial_end sample_sub"
    by blast
  then show ?thesis
    using t by (auto simp: sample_checkout_guest_def sample_sub_def sample_trial_def)
qed

section \<open>Trial manager: one trial per device\<close>

lemma Device_create_found:
  assumes "Device_create h now newId f s = Inr (device, s1)"
  shows "Device_getByDeviceId h f s1 = Some device"
proof -
  from assms have fresh: "h f \<notin> set (map dev_device_id (devices s))"
    and row: "dev_device_id device = h f"
    and s1: "devices s1 = devices s @ [device]"
    by (auto simp: Device_create_def Let_def split: if_splits)
  have "filter (\<lambda>d. dev_device_id d = h f) (devices s) = []"
    unfolding filter_empty_conv
  proof
    fix d
    assume "d \<in> set (devices s)"
    then have "dev_device_id d \<in> set (map dev_device_id (devices s))" by simp
    with fresh show "\<not> dev_device_id d = h f" by metis
  qed
  then show ?thesis
    using row by (simp add: Device_getByDeviceId_def s1 single_def)
qed

lemma start_guest_trial_success:
  assumes "start_guest_trial h now newDeviceId newSubId f s = (Success v, s1)"
  shows "\<not> (length f < 1 \<or> length f > 255)
         \<and> (\<exists>device. Device_getByDeviceId h f s1 = Some device
                      \<and> v = Device_toPublicJSON now device)"
proof (cases "Device_getByDeviceId h f s")
  case (Some device)
  with assms show ?thesis
    by (auto simp: start_guest_trial_def split: if_splits)
next
  case None
  with assms obtain device s' where cr: "Device_create h now newDeviceId f s = Inr (device, s')"
    and v: "v = Device_toPublicJSON now device"
    and sub: "UserSubscription_create
                ((insert_row newSubId now ''trial'')
                   \<lparr> us_device_id := Some (dev_id device),
                     us_trial_start := dev_trial_start device,
                     us_trial_end := dev_trial_end device \<rparr>) s' = Inr s1"
    and len: "\<not> (length f < 1 \<or> length f > 255)"
    by (auto simp: start_guest_trial_def split: if_splits sum.splits prod.splits)
  from sub have "devices s1 = devices s'"
    by (auto simp: UserSubscription_create_def split: if_splits)
  then have "Device_getByDeviceId h f s1 = Device_getByDeviceId h f s'"
    by (simp add: Device_getByDeviceId_def)
  with Device_create_found [OF cr] v len show ?thesis by simp
qed

text \<open>
  C6: after a successful \<open>startTrial(f)\<close>, a second call for the same fingerprint
  (at any time, with any fresh ids on offer) succeeds, returns the same device id
  and the same \<open>trial_start\<close> and \<open>trial_end\<close>, and leaves the store as it was.
\<close>

theorem C6_start_trial_idempotent:
  "start_guest_trial h now1 newDeviceId1 newSubId1 f s = (Success v1, s1) \<Longrightarrow>
   \<exists>v2. start_guest_trial h now2 newDeviceId2 newSubId2 f s1 = (Success v2, s1)
        \<and> tv_guest_id v2 = tv_guest_id v1
        \<and> tv_trial_start v2 = tv_trial_start v1
        \<and> tv_trial_end v2 = tv_trial_end v1"
proof -
  assume "start_guest_trial h now1 newDeviceId1 newSubId1 f s = (Success v1, s1)"
  from start_guest_trial_success [OF this]
  obtain device where len: "\<not> (length f < 1 \<or> length f > 255)"
    and dev: "Device_getByDeviceId h f s1 = Some device"
    and v1: "v1 = Device_toPublicJSON now1 device"
    by blast
  have "start_guest_trial h now2 newDeviceId2 newSubId2 f s1
        = (Success (Device_toPublicJSON now2 device), s1)"
    using len dev by (simp add: start_guest_trial_def)
  then show ?thesis
    using v1 by (simp add: Device_toPublicJSON_def)
qed

theorem C6_start_trial_idempotent_witness:
  "\<exists>v1 s1 v2.
     start_guest_trial (\<lambda>x. x) 1000 ''d7'' ''s7'' ''phone'' sample_store = (Success v1, s1)
     \<and> start_guest_trial (\<lambda>x. x) 5000 ''d8'' ''s8'' ''phone'' s1 = (Success v2, s1)
     \<and> tv_guest_id v1 = ''d7'' \<and> tv_guest_id v2 = ''d7''
     \<and> tv_trial_start v2 = Some 1000 \<and> tv_trial_end v2 = Some (1000 + 3 * msPerDay)"
proof -
  obtain v1 s1 where first:
    "start_guest_trial (\<lambda>x. x) 1000 ''d7'' ''s7'' ''phone'' sample_store = (Success v1, s1)"
    and v1: "tv_guest_id v1 = ''d7''" "tv_trial_start v1 = Some 1000"
      "tv_trial_end v1 = Some (1000 + 3 * msPerDay)"
    by (simp add: start_guest_trial_def Device_getByDeviceId_def Device_create_def
        UserSubscription_create_def sample_store_def sample_device_def sample_sub_def
        sample_trial_def single_def insert_row_def Device_toPublicJSON_def msPerDay_def Let_def)
  from C6_start_trial_idempotent [OF first, of 5000 "''d8''" "''s8''"]
  obtain v2 where "start_guest_trial (\<lambda>x. x) 5000 ''d8'' ''s8'' ''phone'' s1 = (Success v2, s1)"
    and "tv_guest_id v2 = tv_guest_id v1" "tv_trial_start v2 = tv_trial_start v1"
    "tv_trial_end v2 = tv_trial_end v1"
    by blast
  with first v1 show ?thesis by auto
qed

section \<open>License key engine: the key space\<close>

lemma toUpperCase_hexDigits: "toUpperCase hexDigits = upperHexDigits"
  by code_simp

lemma toUpperCase_nth:
  assumes "i < 16"
  shows "toUpperCase [hexDigits ! i] = [upperHexDigits ! i]"
proof -
  have "i < length hexDigits" using assms by (simp add: hexDigits_def)
  then have "toUpperCase [hexDigits ! i] = [toUpperCase hexDigits ! i]"
    unfolding toUpperCase_def by (simp only: nth_map list.map)
  then show ?thesis
    by (simp only: toUpperCase_hexDigits)
qed

lemma byte_nibbles: "unat (b :: 8 word) div 16 < 16" "unat b mod 16 < 16"
proof -
  have "unat b < 2 ^ LENGTH(8)" by (rule unsigned_less)
  then show "unat b div 16 < 16" by simp
  show "unat b mod 16 < 16" by simp
qed

lemma toUpperCase_append: "toUpperCase (xs @ ys) = toUpperCase xs @ toUpperCase ys"
  by (simp add: toUpperCase_def)

lemma segment_eq:
  "segment r = [upperHexDigits ! (unat (fst r) div 16), upperHexDigits ! (unat (fst r) mod 16),
                upperHexDigits ! (unat (snd r) div 16), upperHexDigits ! (unat (snd r) mod 16)]"
proof -
  have "segment r = toUpperCase [hexDigits ! (unat (fst r) div 16)]
                  @ toUpperCase [hexDigits ! (unat (fst r) mod 16)]
                  @ toUpperCase [hexDigits ! (unat (snd r) div 16)]
                  @ toUpperCase [hexDigits ! (unat (snd r) mod 16)]"
    by (simp add: segment_def toStringHex_def toUpperCase_def)
  then show ?thesis
    by (simp add: toUpperCase_nth byte_nibbles)
qed

lemma upperHexDigits_inj:
  assumes "i < 16" "j < 16" "upperHexDigits ! i = upperHexDigits ! j"
  shows "i = j"
proof -
  have "distinct upperHexDigits" by (simp add: upperHexDigits_def)
  moreover have "i < length upperHexDigits" "j < length upperHexDigits"
    using assms by (simp_all add: upperHexDigits_def)
  ultimately show ?thesis
    using assms(3) by (simp add: nth_eq_iff_index_eq)
qed

lemma byte_eqI:
  assumes "unat (a :: 8 word) div 16 = unat (b :: 8 word) div 16"
    and "unat a mod 16 = unat b mod 16"
  shows "a = b"
proof -
  have "unat a = 16 * (unat a div 16) + unat a mod 16" by simp
  also have "\<dots> = 16 * (unat b div 16) + unat b mod 16" using assms by simp
  also have "\<dots> = unat b" by simp
  finally show ?thesis by (simp add: word_unat_eq_iff)
qed

lemma segment_inj: "segment r = segment r' \<Longrightarrow> r = r'"
proof -
  assume "segment r = segment r'"
  then have "upperHexDigits ! (unat (fst r) div 16) = upperHexDigits ! (unat (fst r') div 16)"
    and "upperHexDigits ! (unat (fst r) mod 16) = upperHexDigits ! (unat (fst r') mod 16)"
    and "upperHexDigits ! (unat (snd r) div 16) = upperHexDigits ! (unat (snd r') div 16)"
    and "upperHexDigits ! (unat (snd r) mod 16) = upperHexDigits ! (unat (snd r') mod 16)"
    by (simp_all add: segment_eq)
  then have "unat (fst r) div 16 = unat (fst r') div 16"
    and "unat (fst r) mod 16 = unat (fst r') mod 16"
    and "unat (snd r) div 16 = unat (snd r') div 16"
    and "unat (snd r) mod 16 = unat (snd r') mod 16"
    by (auto intro: upperHexDigits_inj simp: byte_nibbles)
  then have "fst r = fst r'" "snd r = snd r'"
    by (auto intro: byte_eqI)
  then show ?thesis by (simp add: prod_eq_iff)
qed

lemma segment_length: "length (segment r) = 4"
  by (simp add: segment_eq)

lemma generateKey_eq:
  "generateKey (r0, r1, r2) = ''UTM-'' @ segment r0 @ ''-'' @ segment r1 @ ''-'' @ segment r2"
  by (simp add: generateKey_def)

lemma inj_generateKey: "inj generateKey"
proof (rule injI)
  fix x y :: random_bytes
  assume eq: "generateKey x = generateKey y"
  obtain a b c where x: "x = (a, b, c)" by (cases x) auto
  obtain a' b' c' where y: "y = (a', b', c')" by (cases y) auto
  from eq have "segment a @ ''-'' @ segment b @ ''-'' @ segment c
              = segment a' @ ''-'' @ segment b' @ ''-'' @ segment c'"
    by (simp add: x y generateKey_eq)
  then have "segment a = segment a'" "segment b = segment b'" "segment c = segment c'"
    by (simp_all add: segment_length)
  then show "x = y"
    by (simp add: x y segment_inj)
qed

lemma card_random_bytes: "card (UNIV :: random_bytes set) = 2 ^ 48"
  by (simp add: card_word)

lemma card_keys: "card (range generateKey) = 2 ^ 48"
  using card_image [OF inj_generateKey] card_random_bytes by simp

lemma segment_upperAlnum: "list_all upperAlnum (segment r)"
proof -
  have all: "list_all upperAlnum upperHexDigits"
    by (simp add: upperHexDigits_def upperAlnum_def)
  have "upperAlnum (upperHexDigits ! i)" if "i < 16" for i
    using all that by (simp add: list_all_length upperHexDigits_def)
  then show ?thesis
    by (simp add: segment_eq byte_nibbles)
qed

text \<open>
  C7 (as stated, refuted): the keys that \<open>generateKey\<close> can produce are fewer than
  \<open>2^96\<close>.
\<close>

theorem C7_entropy_counterexample: "\<not> (2 ^ 96 \<le> card (range generateKey))"
  by (simp add: card_keys)

text \<open>
  C7 (amended): every generated key's random component is drawn from a space of
  exactly \<open>2^48\<close> values (six random bytes, 48 bits), and the key is \<open>UTM-\<close>
  followed by three segments of four upper-case alphanumeric characters (hexadecimal
  digits), separated by \<open>-\<close>.
\<close>

theorem C7_key_space:
  "card (range generateKey) = 2 ^ 48
   \<and> (\<exists>s0 s1 s2. generateKey rnd = ''UTM-'' @ s0 @ ''-'' @ s1 @ ''-'' @ s2
        \<and> length s0 = 4 \<and> length s1 = 4 \<and> length s2 = 4
        \<and> list_all upperAlnum (s0 @ s1 @ s2))"
proof
  show "card (range generateKey) = 2 ^ 48" by (rule card_keys)
  obtain r0 r1 r2 where "rnd = (r0, r1, r2)" by (cases rnd) auto
  then have "generateKey rnd = ''UTM-'' @ segment r0 @ ''-'' @ segment r1 @ ''-'' @ segment r2"
    by (simp only: generateKey_eq)
  then show "\<exists>s0 s1 s2. generateKey rnd = ''UTM-'' @ s0 @ ''-'' @ s1 @ ''-'' @ s2
        \<and> length s0 = 4 \<and> length s1 = 4 \<and> length s2 = 4
        \<and> list_all upperAlnum (s0 @ s1 @ s2)"
    using segment_length segment_upperAlnum by (metis list_all_append)
qed

theorem C7_key_space_witness:
  "\<exists>s0 s1 s2. generateKey ((18, 171), (0, 10), (255, 255)) = ''UTM-'' @ s0 @ ''-'' @ s1 @ ''-'' @ s2
        \<and> length s0 = 4 \<and> length s1 = 4 \<and> length s2 = 4
        \<and> list_all upperAlnum (s0 @ s1 @ s2)"
  using C7_key_space [of "((18, 171), (0, 10), (255, 255))"] by blast

lemma generateKey_example:
  "generateKey ((18, 171), (0, 10), (255, 255)) = ''UTM-12AB-000A-FFFF''"
  by code_simp

section \<open>License key engine: redemption and revocation\<close>

lemma single_filter_map:
  assumes "single (filter P rows) = Some r"
    and "\<And>x. P (g x) = P x"
  shows "single (filter P (map g rows)) = Some (g r)"
proof -
  have "filter P (map g rows) = map g (filter P rows)"
    by (rule filter_map_pres) (simp add: assms(2))
  then show ?thesis
    using assms(1) by (simp add: single_map)
qed

lemma getByKey_mem:
  assumes "LicenseKey_getByKey hk key s = Some k"
  shows "k \<in> set (license_keys s)"
proof -
  from assms have "filter (\<lambda>x. lk_key x = hk key) (license_keys s) = [k]"
    by (simp add: LicenseKey_getByKey_def single_eq_Some)
  then have "k \<in> set (filter (\<lambda>x. lk_key x = hk key) (license_keys s))"
    by simp
  then show ?thesis by simp
qed

lemma lk_update_found:
  "this \<in> set (license_keys s) \<Longrightarrow>
   LicenseKey_update f this s =
     Inr (s\<lparr>license_keys := map (\<lambda>k. if lk_id k = lk_id this then f k else k) (license_keys s)\<rparr>)"
  by (simp add: LicenseKey_update_def)

lemma getByKey_after:
  assumes "LicenseKey_getByKey hk key s = Some k"
    and "\<And>x. lk_key (f x) = lk_key x"
    and "license_keys s1 = map (\<lambda>x. if lk_id x = lk_id k then f x else x) (license_keys s)"
  shows "LicenseKey_getByKey hk key s1 = Some (f k)"
  using single_filter_map [of "\<lambda>x. lk_key x = hk key" "license_keys s" k
      "\<lambda>x. if lk_id x = lk_id k then f x else x"] assms
  by (simp add: LicenseKey_getByKey_def)

lemma redeem_and_grant_success:
  assumes "redeem_and_grant now sid bu bd k s = (Success v, s1)"
  shows "\<not> isRedeemed k \<and> \<not> isExpired now k
         \<and> license_keys s1 =
             map (\<lambda>x. if lk_id x = lk_id k
                       then x\<lparr>lk_bound_uid := bu, lk_bound_device_id := bd,
                              lk_redeemed_at := Some now\<rparr>
                       else x) (license_keys s)
         \<and> devices s1 = devices s \<and> v = LicenseKey_toPublicJSON k"
  using assms
  by (auto simp: redeem_and_grant_def LicenseKey_redeem_def LicenseKey_update_def Let_def
      UserSubscription_create_def split: sum.splits if_splits)

lemma redeem_and_grant_keys:
  "license_keys (snd (redeem_and_grant now sid bu bd k s)) = license_keys s
   \<or> license_keys (snd (redeem_and_grant now sid bu bd k s)) =
        map (\<lambda>x. if lk_id x = lk_id k
                  then x\<lparr>lk_bound_uid := bu, lk_bound_device_id := bd,
                         lk_redeemed_at := Some now\<rparr>
                  else x) (license_keys s)"
  by (auto simp: redeem_and_grant_def LicenseKey_redeem_def LicenseKey_update_def Let_def
      UserSubscription_create_def split: sum.splits if_splits)

lemma redeem_license_success:
  assumes "redeem_license hk now sid guest tok key s = (Success v, s1)"
  obtains k d where "LicenseKey_getByKey hk key s = Some k"
    and "\<not> isRedeemed k" and "\<not> isExpired now k"
    and "\<not> (length key < 1 \<or> length key > 255)"
    and "truthy guest" and "Device_getById (the guest) s = Some d"
    and "license_keys s1 =
               map (\<lambda>x. if lk_id x = lk_id k
                         then x\<lparr>lk_bound_uid := None, lk_bound_device_id := Some (dev_id d),
                                lk_redeemed_at := Some now\<rparr>
                         else x) (license_keys s)"
    and "devices s1 = devices s"
proof -
  from assms obtain k where k: "LicenseKey_getByKey hk key s = Some k"
    and len: "\<not> (length key < 1 \<or> length key > 255)"
    and fin: "redeem_license_finish now sid guest tok k s = (Success v, s1)"
    by (auto simp: redeem_license_def split: if_splits option.splits)
  from fin obtain d where g: "truthy guest" and d: "Device_getById (the guest) s = Some d"
    and "redeem_and_grant now sid None (Some (dev_id d)) k s = (Success v, s1)"
    by (auto simp: redeem_license_finish_def request_uid_def truthy_def Let_def
        split: if_splits option.splits)
  note r = redeem_and_grant_success [OF this(3)]
  show thesis
    by (rule that [of k d]) (use len in \<open>simp_all add: r k g d\<close>)
qed

lemma revoke_found:
  assumes "LicenseKey_getByKey hk key s = Some k"
  shows "revoke_license hk now key s =
     (Success (),
      s\<lparr>license_keys :=
           map (\<lambda>x. if lk_id x = lk_id k
                     then x\<lparr>lk_redeemed_at := Some now, lk_bound_uid := None,
                            lk_bound_device_id := None\<rparr>
                     else x) (license_keys s)\<rparr>)"
  using assms getByKey_mem [OF assms]
  by (simp add: revoke_license_def LicenseKey_revoke_def lk_update_found)

lemma redeem_redeemed:
  assumes "LicenseKey_getByKey hk key s = Some k"
    and "lk_redeemed_at k \<noteq> None"
    and "\<not> (length key < 1 \<or> length key > 255)"
  shows "redeem_license hk now sid guest tok key s = (Failure 400 AlreadyRedeemed, s)"
  using assms
  by (simp add: redeem_license_def redeem_license_finish_def isValidForRedemption_def
      isRedeemed_def Let_def)

lemma redeem_stale_instance:
  assumes "\<not> isRedeemed this" and "\<not> isExpired now this"
    and "lk_id this \<in> set (map lk_id (license_keys s))"
  shows "LicenseKey_redeem now boundUid boundDeviceId this s =
          Inr (s\<lparr>license_keys :=
                   map (\<lambda>k. if lk_id k = lk_id this
                             then k\<lparr>lk_bound_uid := boundUid,
                                    lk_bound_device_id := boundDeviceId,
                                    lk_redeemed_at := Some now\<rparr>
                             else k) (license_keys s)\<rparr>)"
  using assms by (simp add: LicenseKey_redeem_def LicenseKey_update_def)

text \<open>
  C2 (as stated, refuted): revoking a key that was redeemed at time 100 rewrites its
  \<open>redeemed_at\<close> to the time of the revocation (and clears its binding).
\<close>

theorem C2_revoke_counterexample:
  "lk_redeemed_at (sample_key\<lparr>lk_bound_device_id := Some ''d1'', lk_redeemed_at := Some 100\<rparr>) = Some 100
   \<and> revoke_license plain_hash 200 ''UTM-12AB-000A-FFFF''
        (sample_key_store (sample_key\<lparr>lk_bound_device_id := Some ''d1'', lk_redeemed_at := Some 100\<rparr>))
      = (Success (), sample_key_store (sample_key\<lparr>lk_redeemed_at := Some 200\<rparr>))"
  by (simp add: revoke_license_def LicenseKey_getByKey_def LicenseKey_revoke_def
      LicenseKey_update_def sample_key_store_def sample_key_def single_def plain_hash_def)

text \<open>
  C2 (amended): \<open>redeem\<close> called on an instance whose \<open>redeemed_at\<close> is set fails
  with \<open>AlreadyRedeemed\<close> and changes nothing, whatever \<open>single_use\<close> is, and so
  does a redeem request that finds the stored key with \<open>redeemed_at\<close> set. But
  \<open>redeemed_at\<close> is not write-once. \<open>redeem\<close> tests the instance that was read
  and then updates the row with the instance's id: an instance read while
  \<open>redeemed_at\<close> was null stamps the row, whatever the row holds by then. And
  \<open>revoke\<close> writes the current time into \<open>redeemed_at\<close> and nulls both bindings
  on the key it is given, also when that key was redeemed or revoked before.
\<close>

theorem C2_redeemed_at:
  "(isRedeemed this \<longrightarrow> LicenseKey_redeem now boundUid boundDeviceId this s = Inl AlreadyRedeemed)
   \<and> (LicenseKey_getByKey hashKey key s = Some k \<and> lk_redeemed_at k \<noteq> None
        \<and> \<not> (length key < 1 \<or> length key > 255) \<longrightarrow>
        redeem_license hashKey now newSubId guest_id id_token key s
          = (Failure 400 AlreadyRedeemed, s))
   \<and> (\<not> isRedeemed this \<and> \<not> isExpired now this
        \<and> lk_id this \<in> set (map lk_id (license_keys s)) \<longrightarrow>
        LicenseKey_redeem now boundUid boundDeviceId this s =
          Inr (s\<lparr>license_keys :=
                   map (\<lambda>x. if lk_id x = lk_id this
                             then x\<lparr>lk_bound_uid := boundUid,
                                    lk_bound_device_id := boundDeviceId,
                                    lk_redeemed_at := Some now\<rparr>
                             else x) (license_keys s)\<rparr>))
   \<and> (LicenseKey_getByKey hashKey key s = Some k \<longrightarrow>
        revoke_license hashKey now key s =
          (Success (),
           s\<lparr>license_keys :=
                map (\<lambda>x. if lk_id x = lk_id k
                          then x\<lparr>lk_redeemed_at := Some now, lk_bound_uid := None,
                                 lk_bound_device_id := None\<rparr>
                          else x) (license_keys s)\<rparr>))"
proof (intro conjI impI)
  assume "isRedeemed this"
  then show "LicenseKey_redeem now boundUid boundDeviceId this s = Inl AlreadyRedeemed"
    by (simp add: LicenseKey_redeem_def)
next
  assume "LicenseKey_getByKey hashKey key s = Some k \<and> lk_redeemed_at k \<noteq> None
        \<and> \<not> (length key < 1 \<or> length key > 255)"
  then show "redeem_license hashKey now newSubId guest_id id_token key s
          = (Failure 400 AlreadyRedeemed, s)"
    using redeem_redeemed [of hashKey key s k] by simp
next
  assume "\<not> isRedeemed this \<and> \<not> isExpired now this
        \<and> lk_id this \<in> set (map lk_id (license_keys s))"
  then show "LicenseKey_redeem now boundUid boundDeviceId this s =
          Inr (s\<lparr>license_keys :=
                   map (\<lambda>x. if lk_id x = lk_id this
                             then x\<lparr>lk_bound_uid := boundUid,
                                    lk_bound_device_id := boundDeviceId,
                                    lk_redeemed_at := Some now\<rparr>
                             else x) (license_keys s)\<rparr>)"
    by (simp add: redeem_stale_instance)
next
  assume "LicenseKey_getByKey hashKey key s = Some k"
  then show "revoke_license hashKey now key s =
          (Success (),
           s\<lparr>license_keys :=
                map (\<lambda>x. if lk_id x = lk_id k
                          then x\<lparr>lk_redeemed_at := Some now, lk_bound_uid := None,
                                 lk_bound_device_id := None\<rparr>
                          else x) (license_keys s)\<rparr>)"
    by (rule revoke_found)
qed

theorem C2_redeemed_at_witness:
  "redeem_license plain_hash 300 ''n1'' (Some ''d1'') None ''UTM-12AB-000A-FFFF''
     (sample_key_store (sample_key\<lparr>lk_single_use := False, lk_redeemed_at := Some 100\<rparr>))
   = (Failure 400 AlreadyRedeemed,
      sample_key_store (sample_key\<lparr>lk_single_use := False, lk_redeemed_at := Some 100\<rparr>))
   \<and> LicenseKey_redeem 300 None (Some ''d1'') sample_key
        (sample_two_device_store
           (sample_key\<lparr>lk_bound_device_id := Some ''d2'', lk_redeemed_at := Some 100\<rparr>))
     = Inr (sample_two_device_store
              (sample_key\<lparr>lk_bound_device_id := Some ''d1'', lk_redeemed_at := Some 300\<rparr>))
   \<and> revoke_license plain_hash 400 ''UTM-12AB-000A-FFFF''
        (sample_key_store (sample_key\<lparr>lk_redeemed_at := Some 100\<rparr>))
     = (Success (), sample_key_store (sample_key\<lparr>lk_redeemed_at := Some 400\<rparr>))"
proof -
  let ?k = "sample_key\<lparr>lk_single_use := False, lk_redeemed_at := Some 100\<rparr>"
  let ?stored = "sample_key\<lparr>lk_bound_device_id := Some ''d2'', lk_redeemed_at := Some 100\<rparr>"
  let ?r = "sample_key\<lparr>lk_redeemed_at := Some 100\<rparr>"
  have g: "LicenseKey_getByKey plain_hash ''UTM-12AB-000A-FFFF'' (sample_key_store ?k) = Some ?k"
    by (simp add: LicenseKey_getByKey_def sample_key_store_def sample_key_def single_def
        plain_hash_def)
  have r: "lk_redeemed_at ?k \<noteq> None" by simp
  have l: "\<not> (length ''UTM-12AB-000A-FFFF'' < 1 \<or> length ''UTM-12AB-000A-FFFF'' > 255)" by simp
  have first: "redeem_license plain_hash 300 ''n1'' (Some ''d1'') None ''UTM-12AB-000A-FFFF''
       (sample_key_store ?k) = (Failure 400 AlreadyRedeemed, sample_key_store ?k)"
    using C2_redeemed_at [where hashKey = plain_hash and key = "''UTM-12AB-000A-FFFF''"
      and s = "sample_key_store ?k" and k = ?k and now = 300 and newSubId = "''n1''"
      and guest_id = "Some ''d1''" and id_token = None, THEN conjunct2, THEN conjunct1] g r l
    by simp
  have fresh: "\<not> isRedeemed sample_key" "\<not> isExpired 300 sample_key"
    by (simp_all add: isRedeemed_def isExpired_def sample_key_def)
  have mem: "lk_id sample_key \<in> set (map lk_id (license_keys (sample_two_device_store ?stored)))"
    by (simp add: sample_two_device_store_def sample_key_def)
  have stale: "LicenseKey_redeem 300 None (Some ''d1'') sample_key (sample_two_device_store ?stored)
     = Inr (sample_two_device_store
              (sample_key\<lparr>lk_bound_device_id := Some ''d1'', lk_redeemed_at := Some 300\<rparr>))"
    using C2_redeemed_at [where this = sample_key and now = 300 and boundUid = None
      and boundDeviceId = "Some ''d1''" and s = "sample_two_device_store ?stored",
      THEN conjunct2, THEN conjunct2, THEN conjunct1] fresh mem
    by (simp add: sample_two_device_store_def sample_key_def)
  have g2: "LicenseKey_getByKey plain_hash ''UTM-12AB-000A-FFFF'' (sample_key_store ?r) = Some ?r"
    by (simp add: LicenseKey_getByKey_def sample_key_store_def sample_key_def single_def
        plain_hash_def)
  have rev: "revoke_license plain_hash 400 ''UTM-12AB-000A-FFFF'' (sample_key_store ?r)
     = (Success (), sample_key_store (sample_key\<lparr>lk_redeemed_at := Some 400\<rparr>))"
    using C2_redeemed_at [where hashKey = plain_hash and key = "''UTM-12AB-000A-FFFF''"
      and s = "sample_key_store ?r" and k = ?r and now = 400,
      THEN conjunct2, THEN conjunct2, THEN conjunct2] g2
    by (simp add: sample_key_store_def sample_key_def)
  from first stale rev show ?thesis by simp
qed

section \<open>License key engine: two attempts on one key\<close>

lemma redeem_license_phases:
  "\<not> (length key < 1 \<or> length key > 255) \<Longrightarrow>
   redeem_license hashKey (ra_now a) (ra_newSubId a) (ra_guest_id a) (ra_id_token a) key s
     = redeem_after_lookup a (LicenseKey_getByKey hashKey key s) s"
  by (simp add: redeem_license_def redeem_after_lookup_def)

text \<open>
  C9 (as stated, refuted): two guests on two devices try to redeem the same key.
  When both requests have read the key before either writes, both succeed, and the
  key ends bound to the second device.
\<close>

theorem C9_race_counterexample:
  "fst (redeem_lookups_first plain_hash ''UTM-12AB-000A-FFFF''
          (sample_attempt 10 ''n1'' ''d1'') (sample_attempt 11 ''n2'' ''d2'') sample_race_store)
     = Success (LicenseKey_toPublicJSON sample_key)
   \<and> fst (snd (redeem_lookups_first plain_hash ''UTM-12AB-000A-FFFF''
          (sample_attempt 10 ''n1'' ''d1'') (sample_attempt 11 ''n2'' ''d2'') sample_race_store))
     = Success (LicenseKey_toPublicJSON sample_key)
   \<and> license_keys (snd (snd (redeem_lookups_first plain_hash ''UTM-12AB-000A-FFFF''
          (sample_attempt 10 ''n1'' ''d1'') (sample_attempt 11 ''n2'' ''d2'') sample_race_store)))
     = [sample_key\<lparr>lk_bound_device_id := Some ''d2'', lk_redeemed_at := Some 11\<rparr>]"
  by (simp add: redeem_lookups_first_def redeem_after_lookup_def redeem_license_finish_def
      redeem_and_grant_def LicenseKey_redeem_def LicenseKey_update_def LicenseKey_getByKey_def
      UserSubscription_create_def isValidForRedemption_def isRedeemed_def isExpired_def
      Device_getById_def request_uid_def sample_attempt_def sample_race_store_def
      sample_device_def sample_device2_def sample_key_def sample_store_def sample_sub_def
      sample_trial_def insert_row_def truthy_def single_def Let_def plain_hash_def)

lemma redeem_twice:
  assumes "redeem_license hk now1 sid1 g1 t1 key s = (Success v, s1)"
  shows "redeem_license hk now2 sid2 g2 t2 key s1 = (Failure 400 AlreadyRedeemed, s1)"
proof -
  from assms obtain k d where k: "LicenseKey_getByKey hk key s = Some k"
    and "\<not> isRedeemed k" and "\<not> isExpired now1 k"
    and len: "\<not> (length key < 1 \<or> length key > 255)"
    and "truthy g1" and "Device_getById (the g1) s = Some d"
    and keys: "license_keys s1 =
               map (\<lambda>x. if lk_id x = lk_id k
                         then x\<lparr>lk_bound_uid := None, lk_bound_device_id := Some (dev_id d),
                                lk_redeemed_at := Some now1\<rparr>
                         else x) (license_keys s)"
    and "devices s1 = devices s"
    by (rule redeem_license_success)
  have "LicenseKey_getByKey hk key s1
        = Some (k\<lparr>lk_bound_uid := None, lk_bound_device_id := Some (dev_id d),
                   lk_redeemed_at := Some now1\<rparr>)"
    using getByKey_after [where f = "\<lambda>x. x\<lparr>lk_bound_uid := None,
        lk_bound_device_id := Some (dev_id d), lk_redeemed_at := Some now1\<rparr>"
        and hk = hk and key = key and s = s and k = k and ?s1.0 = s1] k keys
    by simp
  then show ?thesis
    using len by (simp add: redeem_redeemed)
qed

text \<open>
  C9 (amended): of two redemption attempts on the same key that run one after the
  other, the second, coming after a successful first, fails with
  \<open>AlreadyRedeemed\<close> and changes nothing. The redemption path is no
  compare-and-set: \<open>redeem\<close> checks \<open>redeemed_at\<close> and the expiry on the instance
  read earlier and then updates the row with that id, whatever the row holds by
  then.
\<close>

theorem C9_sequential_redemption:
  "(redeem_license hashKey now1 newSubId1 guest_id1 id_token1 key s = (Success v, s1) \<longrightarrow>
      redeem_license hashKey now2 newSubId2 guest_id2 id_token2 key s1
        = (Failure 400 AlreadyRedeemed, s1))
   \<and> (\<not> isRedeemed this \<and> \<not> isExpired now this
        \<and> lk_id this \<in> set (map lk_id (license_keys s)) \<longrightarrow>
        LicenseKey_redeem now boundUid boundDeviceId this s =
          Inr (s\<lparr>license_keys :=
                   map (\<lambda>k. if lk_id k = lk_id this
                             then k\<lparr>lk_bound_uid := boundUid,
                                    lk_bound_device_id := boundDeviceId,
                                    lk_redeemed_at := Some now\<rparr>
                             else k) (license_keys s)\<rparr>))"
proof (intro conjI impI)
  assume "redeem_license hashKey now1 newSubId1 guest_id1 id_token1 key s = (Success v, s1)"
  then show "redeem_license hashKey now2 newSubId2 guest_id2 id_token2 key s1
        = (Failure 400 AlreadyRedeemed, s1)"
    by (rule redeem_twice)
next
  assume "\<not> isRedeemed this \<and> \<not> isExpired now this
        \<and> lk_id this \<in> set (map lk_id (license_keys s))"
  then show "LicenseKey_redeem now boundUid boundDeviceId this s =
          Inr (s\<lparr>license_keys :=
                   map (\<lambda>k. if lk_id k = lk_id this
                             then k\<lparr>lk_bound_uid := boundUid,
                                    lk_bound_device_id := boundDeviceId,
                                    lk_redeemed_at := Some now\<rparr>
                             else k) (license_keys s)\<rparr>)"
    by (simp add: redeem_stale_instance)
qed

theorem C9_sequential_redemption_witness:
  "(\<exists>s1. redeem_license plain_hash 10 ''n1'' (Some ''d1'') None ''UTM-12AB-000A-FFFF''
            sample_race_store = (Success (LicenseKey_toPublicJSON sample_key), s1)
        \<and> redeem_license plain_hash 11 ''n2'' (Some ''d2'') None ''UTM-12AB-000A-FFFF'' s1
            = (Failure 400 AlreadyRedeemed, s1))
   \<and> LicenseKey_redeem 11 None (Some ''d2'') sample_key
        (sample_two_device_store
           (sample_key\<lparr>lk_bound_device_id := Some ''d1'', lk_redeemed_at := Some 10\<rparr>))
     = Inr (sample_two_device_store
              (sample_key\<lparr>lk_bound_device_id := Some ''d2'', lk_redeemed_at := Some 11\<rparr>))"
proof -
  obtain s1 where first:
    "redeem_license plain_hash 10 ''n1'' (Some ''d1'') None ''UTM-12AB-000A-FFFF''
       sample_race_store = (Success (LicenseKey_toPublicJSON sample_key), s1)"
    by (simp add: redeem_license_def redeem_license_finish_def
      redeem_and_grant_def LicenseKey_redeem_def LicenseKey_update_def LicenseKey_getByKey_def
      UserSubscription_create_def isValidForRedemption_def isRedeemed_def isExpired_def
      Device_getById_def request_uid_def sample_race_store_def
      sample_device_def sample_device2_def sample_key_def sample_store_def sample_sub_def
      sample_trial_def insert_row_def truthy_def single_def Let_def plain_hash_def)
  have second: "redeem_license plain_hash 11 ''n2'' (Some ''d2'') None ''UTM-12AB-000A-FFFF'' s1
            = (Failure 400 AlreadyRedeemed, s1)"
    using C9_sequential_redemption [where hashKey = plain_hash and ?now1.0 = 10
      and ?newSubId1.0 = "''n1''" and ?guest_id1.0 = "Some ''d1''" and ?id_token1.0 = None
      and key = "''UTM-12AB-000A-FFFF''" and s = sample_race_store
      and v = "LicenseKey_toPublicJSON sample_key" and ?s1.0 = s1
      and ?now2.0 = 11 and ?newSubId2.0 = "''n2''" and ?guest_id2.0 = "Some ''d2''"
      and ?id_token2.0 = None, THEN conjunct1] first
    by simp
  let ?stored = "sample_key\<lparr>lk_bound_device_id := Some ''d1'', lk_redeemed_at := Some 10\<rparr>"
  have fresh: "\<not> isRedeemed sample_key" "\<not> isExpired 11 sample_key"
    by (simp_all add: isRedeemed_def isExpired_def sample_key_def)
  have mem: "lk_id sample_key \<in> set (map lk_id (license_keys (sample_two_device_store ?stored)))"
    by (simp add: sample_two_device_store_def sample_key_def)
  have stale: "LicenseKey_redeem 11 None (Some ''d2'') sample_key (sample_two_device_store ?stored)
     = Inr (sample_two_device_store
              (sample_key\<lparr>lk_bound_device_id := Some ''d2'', lk_redeemed_at := Some 11\<rparr>))"
    using C9_sequential_redemption [where this = sample_key and now = 11 and boundUid = None
      and boundDeviceId = "Some ''d2''" and s = "sample_two_device_store ?stored",
      THEN conjunct2] fresh mem
    by (simp add: sample_two_device_store_def sample_key_def)
  from first second stale show ?thesis by auto
qed

section \<open>License key engine: the binding\<close>

lemma us_update_keys:
  "UserSubscription_update f r s = Inr s1 \<Longrightarrow> license_keys s1 = license_keys s"
  by (auto simp: UserSubscription_update_def split: if_splits)

lemma us_create_keys:
  "UserSubscription_create row s = Inr s1 \<Longrightarrow> license_keys s1 = license_keys s"
  by (auto simp: UserSubscription_create_def split: if_splits)

lemma checkout_keys:
  "handleCheckoutSessionCompleted now newId session s = Inr s1 \<Longrightarrow>
   license_keys s1 = license_keys s"
  by (auto simp: handleCheckoutSessionCompleted_def Let_def
      dest: us_update_keys us_create_keys split: if_splits option.splits)

lemma status_keys:
  "(case getByStripeSubscriptionId sid s of None \<Rightarrow> Inr s | Some r \<Rightarrow> updateStatus st r s) = Inr s1
   \<Longrightarrow> license_keys s1 = license_keys s"
  by (auto simp: updateStatus_def dest: us_update_keys split: option.splits)

lemma created_keys:
  "handleSubscriptionCreated c s = Inr s1 \<Longrightarrow> license_keys s1 = license_keys s"
  by (drule created_Inr) simp

lemma processEvent_keys:
  "processEvent now newId ev s = Inr s1 \<Longrightarrow> license_keys s1 = license_keys s"
proof (cases ev)
  case (CheckoutSessionCompleted session)
  then show "processEvent now newId ev s = Inr s1 \<Longrightarrow> ?thesis"
    by (simp add: checkout_keys)
next
  case (InvoicePaymentSucceeded invoice)
  then show "processEvent now newId ev s = Inr s1 \<Longrightarrow> ?thesis"
    using status_keys [where sid = "the (inv_subscription invoice)" and st = "''active''"
        and s = s and ?s1.0 = s1]
    by (simp add: handleInvoicePaymentSucceeded_def split: if_splits)
next
  case (InvoicePaymentFailed invoice)
  then show "processEvent now newId ev s = Inr s1 \<Longrightarrow> ?thesis"
    using status_keys [where sid = "the (inv_subscription invoice)" and st = "''past_due''"
        and s = s and ?s1.0 = s1]
    by (simp add: handleInvoicePaymentFailed_def split: if_splits)
next
  case (CustomerSubscriptionCreated c)
  then show "processEvent now newId ev s = Inr s1 \<Longrightarrow> ?thesis"
    by (simp add: created_keys)
next
  case (CustomerSubscriptionUpdated e)
  then show "processEvent now newId ev s = Inr s1 \<Longrightarrow> ?thesis"
    using status_keys [where sid = "ss_id e" and st = "mappedStatus (ss_status e)"
        and s = s and ?s1.0 = s1]
    by (simp add: handleSubscriptionUpdated_def)
next
  case (CustomerSubscriptionDeleted e)
  then show "processEvent now newId ev s = Inr s1 \<Longrightarrow> ?thesis"
    using status_keys [where sid = "ss_id e" and st = "''canceled''" and s = s and ?s1.0 = s1]
    by (simp add: handleSubscriptionDeleted_def)
next
  case (UnhandledEvent ty)
  then show "processEvent now newId ev s = Inr s1 \<Longrightarrow> ?thesis"
    by simp
qed

lemma webhook_keys:
  "license_keys (handle_request hdev hk (StripeWebhook now newId ev) s) = license_keys s"
  by (cases "processEvent now newId ev s") (simp_all add: processEvent_keys)

lemma start_guest_trial_keys:
  "license_keys (snd (start_guest_trial h now newDeviceId newSubId f s)) = license_keys s"
proof -
  have dc: "license_keys s1 = license_keys s"
    if "Device_create h now newDeviceId f s = Inr (d, s1)" for d s1
    using that by (auto simp: Device_create_def Let_def split: if_splits)
  show ?thesis
    by (auto simp: start_guest_trial_def dest!: dc us_create_keys
        split: option.splits sum.splits prod.splits)
qed

lemma createMultiple_loop_keys:
  "\<exists>new. license_keys (snd (createMultiple_loop hk planId opts xs keys pts s))
            = license_keys s @ new \<and> list_all unbound new"
proof (induction xs arbitrary: keys pts s)
  case Nil
  show ?case by simp
next
  case (Cons x xs)
  obtain rnd newId where x: "x = (rnd, newId)" by (cases x) auto
  let ?row = "\<lparr> lk_id = newId, lk_key = hk (generateKey rnd), lk_plan_id = planId,
                  lk_expires_at = opt_expiresAt opts,
                  lk_single_use = (opt_singleUse opts \<noteq> Some False),
                  lk_bound_uid = None, lk_bound_device_id = None, lk_redeemed_at = None,
                  lk_created_by = opt_createdBy opts \<rparr>"
  show ?case
  proof (cases "newId \<in> set (map lk_id (license_keys s))
            \<or> hk (generateKey rnd) \<in> set (map lk_key (license_keys s))")
    case True
    then have "snd (createMultiple_loop hk planId opts (x # xs) keys pts s) = s"
      by (simp add: x Let_def)
    then show ?thesis by simp
  next
    case False
    then have step: "createMultiple_loop hk planId opts (x # xs) keys pts s
      = createMultiple_loop hk planId opts xs (keys @ [?row]) (pts @ [generateKey rnd])
          (s\<lparr>license_keys := license_keys s @ [?row]\<rparr>)"
      by (simp add: x Let_def)
    from Cons.IH [of "keys @ [?row]" "pts @ [generateKey rnd]"
        "s\<lparr>license_keys := license_keys s @ [?row]\<rparr>"]
    obtain new where "license_keys (snd (createMultiple_loop hk planId opts xs (keys @ [?row])
        (pts @ [generateKey rnd]) (s\<lparr>license_keys := license_keys s @ [?row]\<rparr>)))
        = (license_keys s @ [?row]) @ new" and "list_all unbound new"
      by auto
    then have "license_keys (snd (createMultiple_loop hk planId opts (x # xs) keys pts s))
        = license_keys s @ (?row # new) \<and> list_all unbound (?row # new)"
      by (simp add: step unbound_def)
    then show ?thesis by (rule exI)
  qed
qed

lemma unbound_ok: "unbound k \<Longrightarrow> binding_ok k"
  by (simp add: unbound_def binding_ok_def)

lemma generate_ok:
  assumes "list_all binding_ok (license_keys s)"
  shows "list_all binding_ok (license_keys (handle_request hdev hk (GenerateLicenseKeys p n opts draw) s))"
proof -
  from createMultiple_loop_keys [of hk p opts "map draw [0..<n]" "[]" "[]" s]
  obtain new where "license_keys (snd (createMultiple hk p n opts draw s)) = license_keys s @ new"
    and "list_all unbound new"
    by (auto simp: createMultiple_def)
  then show ?thesis
    using assms by (auto simp: list_all_iff unbound_ok)
qed

lemma map_binding_ok:
  assumes "list_all binding_ok rows" and "\<And>x. binding_ok (f x)"
  shows "list_all binding_ok (map (\<lambda>x. if lk_id x = i then f x else x) rows)"
  using assms by (induction rows) auto

lemma redeem_and_grant_ok:
  assumes "list_all binding_ok (license_keys s)" and "bu = None \<or> bd = None"
  shows "list_all binding_ok (license_keys (snd (redeem_and_grant now sid bu bd k s)))"
proof -
  have "list_all binding_ok
          (map (\<lambda>x. if lk_id x = lk_id k
                    then x\<lparr>lk_bound_uid := bu, lk_bound_device_id := bd,
                           lk_redeemed_at := Some now\<rparr>
                    else x) (license_keys s))"
    using assms by (intro map_binding_ok) (auto simp: binding_ok_def)
  with assms(1) redeem_and_grant_keys [of now sid bu bd k s] show ?thesis by auto
qed

lemma redeem_ok:
  assumes "list_all binding_ok (license_keys s)"
  shows "list_all binding_ok
           (license_keys (handle_request hdev hk (RedeemLicense now sid guest tok key) s))"
  using assms
  by (auto simp: redeem_license_def redeem_license_finish_def redeem_and_grant_ok Let_def
      split: option.splits)

lemma revoke_ok:
  assumes "list_all binding_ok (license_keys s)"
  shows "list_all binding_ok (license_keys (handle_request hdev hk (RevokeLicense now key) s))"
proof (cases "LicenseKey_getByKey hk key s")
  case None
  with assms show ?thesis by (simp add: revoke_license_def)
next
  case (Some k)
  have "list_all binding_ok
          (map (\<lambda>x. if lk_id x = lk_id k
                    then x\<lparr>lk_redeemed_at := Some now, lk_bound_uid := None,
                           lk_bound_device_id := None\<rparr>
                    else x) (license_keys s))"
    using assms by (intro map_binding_ok) (auto simp: binding_ok_def)
  then show ?thesis
    by (simp add: revoke_found [OF Some])
qed

lemma handle_request_ok:
  assumes "list_all binding_ok (license_keys s)"
  shows "list_all binding_ok (license_keys (handle_request hdev hk req s))"
proof (cases req)
  case (StartGuestTrial now newDeviceId newSubId f)
  then show ?thesis using assms by (simp add: start_guest_trial_keys)
next
  case (RedeemLicense now sid guest tok key)
  then show ?thesis using redeem_ok [OF assms] by simp
next
  case (RevokeLicense now key)
  then show ?thesis using revoke_ok [OF assms] by simp
next
  case (GenerateLicenseKeys p n opts draw)
  then show ?thesis using generate_ok [OF assms] by simp
next
  case (StripeWebhook now newId ev)
  then show ?thesis using assms by (simp only: webhook_keys)
qed

lemma run_requests_ok:
  "list_all binding_ok (license_keys s) \<Longrightarrow>
   list_all binding_ok (license_keys (run_requests hdev hk reqs s))"
  by (induction reqs arbitrary: s) (simp_all add: handle_request_ok)

text \<open>
  In every store reached from the empty one by any sequence of requests, every
  license key has at most one of \<open>bound_uid\<close> and \<open>bound_device_id\<close> set, and each
  request keeps that property. A successful redemption binds the key to the guest's
  device and leaves \<open>bound_uid\<close> null; revocation nulls both; the trial and webhook
  requests leave the key table as it is.
\<close>

lemma binding_invariant:
  "list_all binding_ok (license_keys (run_requests hdev hk reqs empty_store))"
  by (rule run_requests_ok) (simp add: empty_store_def)

lemma redeem_binds_device:
  assumes "redeem_license hk now newSubId guest_id id_token key s = (Success v, s1)"
  shows "\<exists>k d. LicenseKey_getByKey hk key s = Some k
           \<and> Device_getById (the guest_id) s = Some d
           \<and> LicenseKey_getByKey hk key s1
               = Some (k\<lparr>lk_bound_uid := None, lk_bound_device_id := Some (dev_id d),
                          lk_redeemed_at := Some now\<rparr>)"
proof -
  from assms obtain k d where k: "LicenseKey_getByKey hk key s = Some k"
    and "\<not> isRedeemed k" and "\<not> isExpired now k"
    and "\<not> (length key < 1 \<or> length key > 255)"
    and "truthy guest_id" and d: "Device_getById (the guest_id) s = Some d"
    and keys: "license_keys s1 =
               map (\<lambda>x. if lk_id x = lk_id k
                         then x\<lparr>lk_bound_uid := None, lk_bound_device_id := Some (dev_id d),
                                lk_redeemed_at := Some now\<rparr>
                         else x) (license_keys s)"
    and "devices s1 = devices s"
    by (rule redeem_license_success)
  have "LicenseKey_getByKey hk key s1
        = Some (k\<lparr>lk_bound_uid := None, lk_bound_device_id := Some (dev_id d),
                   lk_redeemed_at := Some now\<rparr>)"
    using getByKey_after [where f = "\<lambda>x. x\<lparr>lk_bound_uid := None,
        lk_bound_device_id := Some (dev_id d), lk_redeemed_at := Some now\<rparr>"
        and hk = hk and key = key and s = s and k = k and ?s1.0 = s1] k keys
    by simp
  with k d show ?thesis by simp
qed

lemma redeem_ignores_token:
  "redeem_license hk now newSubId guest_id id_token key s
   = redeem_license hk now newSubId guest_id None key s"
  by (simp add: redeem_license_def redeem_license_finish_def request_uid_def Let_def
      cong: option.case_cong)

text \<open>
  C10 (the code at the failing input): a redemption request that presents a token
  together with the id of an existing device binds the key to the device and leaves
  \<open>bound_uid\<close> null, and the subscription it creates belongs to the device; a
  request that presents a token alone is refused for want of an identity. The
  authenticated uid is never bound.
\<close>

theorem C10_token_and_guest_binds_device:
  "redeem_license plain_hash 10 ''n1'' (Some ''d1'') (Some ''token-of-alice'')
     ''UTM-12AB-000A-FFFF'' (sample_key_store sample_key)
   = (Success (LicenseKey_toPublicJSON sample_key),
      sample_store
        \<lparr> user_subscriptions :=
            [sample_sub,
             (insert_row ''n1'' 10 ''active'')
               \<lparr> us_device_id := Some ''d1'', us_plan_id := Some ''license_pro_monthly'' \<rparr>],
          license_keys :=
            [sample_key\<lparr>lk_bound_uid := None, lk_bound_device_id := Some ''d1'',
                        lk_redeemed_at := Some 10\<rparr>] \<rparr>)
   \<and> redeem_license plain_hash 10 ''n1'' None (Some ''token-of-alice'')
       ''UTM-12AB-000A-FFFF'' (sample_key_store sample_key)
     = (Failure 400 IdentityRequired, sample_key_store sample_key)"
  by (simp add: redeem_license_def redeem_license_finish_def
      redeem_and_grant_def LicenseKey_redeem_def LicenseKey_update_def LicenseKey_getByKey_def
      LicenseKey_toPublicJSON_def getBoundInfo_def
      UserSubscription_create_def isValidForRedemption_def isRedeemed_def isExpired_def
      Device_getById_def request_uid_def sample_key_store_def
      sample_device_def sample_key_def sample_store_def sample_sub_def
      sample_trial_def insert_row_def truthy_def single_def Let_def plain_hash_def)

end
